theory Spec2Isabelle
  imports Complex_Main "HOL-Library.Word"
begin

section \<open>Data model of the pixel buffer decoders\<close>

text \<open>
  The decoders of the image module (\<^verbatim>\<open>AsynchPixelBufferDecoder\<close>,
  \<^verbatim>\<open>SynchPixelBufferDecoder\<close> and the facade \<^verbatim>\<open>PixelBufferDecoder\<close>) are objects
  with mutable private fields and six overridable handler fields. Each object is a record,
  each method a function from the object to a result that holds the exception thrown (if
  any), the object after the call, and the list of calls the method made to handlers and to
  the thread pool, in program order. A JavaScript mutation that precedes a \<^verbatim>\<open>throw\<close>
  survives it, so the object after the call is part of the result of a throwing call too.

  Handlers are values: the default method of the class (which does nothing) or a function
  assigned by a client. A handler is assumed to return normally and not to call back into
  the decoder that invokes it.
\<close>

type_synonym ArrayBuffer = "8 word list"

datatype error =
    Error string
  | RangeError string
  | TypeError string
  | ReferenceError string

datatype array_type = Int8 | Uint8 | Int16 | Uint16

text \<open>A decoded buffer: a typed array view over an array buffer, or the value an external
  codec engine or the RLE decoder hands back.\<close>

datatype 'p buffer = TypedArray array_type ArrayBuffer | External 'p

record pixelMeta =
  bitsAllocated :: int
  isSigned :: bool
  sliceSize :: int
  samplesPerPixel :: int
  planarConfiguration :: int

record info =
  itemNumber :: int

datatype 'h handler = Default | Assigned 'h

datatype callback =
  OnDecodeStart | OnDecodedItem | OnDecoded | OnDecodeEnd | OnError | OnAbort

text \<open>The event objects: \<^verbatim>\<open>{data: [decodedBuffer], index: info.itemNumber}\<close> and \<^verbatim>\<open>{}\<close>.
  A \<^verbatim>\<open>null\<close> buffer is \<open>None\<close>.\<close>

datatype 'p event = ItemEvent "'p buffer option list" int | EmptyEvent

text \<open>\<^verbatim>\<open>new WorkerTask(script, {buffer: pixelBuffer, meta: pixelMeta}, info)\<close>\<close>

datatype task = WorkerTask string "int list" pixelMeta info

text \<open>What a method does to the outside: it invokes the handler stored in one of the six
  fields with an event, or it calls \<^verbatim>\<open>addWorkerTask\<close> or \<^verbatim>\<open>abort\<close> of the thread pool.\<close>

datatype ('h, 'p) call =
    Fire callback "'h handler" "'p event"
  | AddWorkerTask task
  | PoolAbort

record ('a, 'c) result =
  thrown :: "error option"
  final :: 'a
  calls :: "'c list"

record 'h handlers =
  ondecodestart :: "'h handler"
  ondecodeditem :: "'h handler"
  ondecoded :: "'h handler"
  ondecodeend :: "'h handler"
  onerror :: "'h handler"
  onabort :: "'h handler"

subsection \<open>The codec engines\<close>

text \<open>
  The three pluggable engines are globals of the host page (\<^verbatim>\<open>jpeg.lossless\<close>,
  \<^verbatim>\<open>JpegImage\<close>, \<^verbatim>\<open>JpxImage\<close>); an engine that is not loaded is \<open>None\<close>. An engine is
  a function of what the decoder passes to it, and may throw.
  \<^item> \<open>jpeg_lossless\<close>: \<^verbatim>\<open>new jpeg.lossless.Decoder().decode(buffer, offset, length, bpe).buffer\<close>;
  \<^item> \<open>JpegImage\<close>: \<^verbatim>\<open>parse(pixelBuffer)\<close> then \<^verbatim>\<open>getData(width, height)\<close>;
  \<^item> \<open>JpxImage\<close>: \<^verbatim>\<open>parse(pixelBuffer)\<close>, giving the \<^verbatim>\<open>items\<close> of each of its \<^verbatim>\<open>tiles\<close>;
  \<^item> \<open>RleDecoder\<close>: \<^verbatim>\<open>new RleDecoder().decode(buffer, bitsAllocated, isSigned, sliceSize,
    samplesPerPixel, planarConfiguration)\<close>, always present.
\<close>

record 'p codecs =
  jpeg_lossless :: "(ArrayBuffer \<Rightarrow> nat \<Rightarrow> nat \<Rightarrow> rat \<Rightarrow> error + ArrayBuffer) option"
  JpegImage :: "(int list \<Rightarrow> error + 'p) option"
  JpxImage :: "(int list \<Rightarrow> error + 'p list) option"
  RleDecoder :: "int list \<Rightarrow> int \<Rightarrow> bool \<Rightarrow> int \<Rightarrow> int \<Rightarrow> int \<Rightarrow> error + 'p"

definition hasJpegBaselineDecoder :: "'p codecs \<Rightarrow> bool" where
  "hasJpegBaselineDecoder env = (JpegImage env \<noteq> None)"

definition hasJpegLosslessDecoder :: "'p codecs \<Rightarrow> bool" where
  "hasJpegLosslessDecoder env = (jpeg_lossless env \<noteq> None)"

definition hasJpeg2000Decoder :: "'p codecs \<Rightarrow> bool" where
  "hasJpeg2000Decoder env = (JpxImage env \<noteq> None)"

subsection \<open>Typed arrays\<close>

fun bytes_per_element :: "array_type \<Rightarrow> nat" where
  "bytes_per_element Int8 = 1"
| "bytes_per_element Uint8 = 1"
| "bytes_per_element Int16 = 2"
| "bytes_per_element Uint16 = 2"

fun bits_per_element :: "array_type \<Rightarrow> int" where
  "bits_per_element t = 8 * int (bytes_per_element t)"

fun is_signed_type :: "array_type \<Rightarrow> bool" where
  "is_signed_type Int8 = True"
| "is_signed_type Uint8 = False"
| "is_signed_type Int16 = True"
| "is_signed_type Uint16 = False"

text \<open>\<^verbatim>\<open>new Uint8Array(pixelBuffer)\<close> of an array of integers: each element modulo 256.\<close>

definition Uint8Array_from :: "int list \<Rightarrow> ArrayBuffer" where
  "Uint8Array_from pixelBuffer = map word_of_int pixelBuffer"

text \<open>\<^verbatim>\<open>new Int16Array(buffer)\<close> and its siblings: a view over the whole buffer; a byte
  length that is no multiple of the element size is a \<^verbatim>\<open>RangeError\<close>.\<close>

definition new_TypedArray :: "array_type \<Rightarrow> ArrayBuffer \<Rightarrow> error + 'p buffer option" where
  "new_TypedArray t b =
     (if length b mod bytes_per_element t \<noteq> 0
      then Inl (RangeError ''byte length should be a multiple of the element size'')
      else Inr (Some (TypedArray t b)))"

section \<open>SynchPixelBufferDecoder\<close>

record 'h SynchPixelBufferDecoder = "'h handlers" +
  algoName :: string
  numberOfData :: int
  decodeCount :: int

definition SynchPixelBufferDecoder_new :: "string \<Rightarrow> int \<Rightarrow> 'h SynchPixelBufferDecoder" where
  "SynchPixelBufferDecoder_new a n =
     \<lparr> ondecodestart = Default, ondecodeditem = Default, ondecoded = Default,
       ondecodeend = Default, onerror = Default, onabort = Default,
       algoName = a, numberOfData = n, decodeCount = 0 \<rparr>"

text \<open>
  The dispatch of \<^verbatim>\<open>decode\<close> (from \<^verbatim>\<open>var decoder = null\<close> to the end of the \<^verbatim>\<open>if\<close> chain):
  the value of \<^verbatim>\<open>decodedBuffer\<close>, or the exception thrown. The chain has no final
  \<^verbatim>\<open>else\<close>: for a name that is none of the four, \<^verbatim>\<open>decodedBuffer\<close> stays \<^verbatim>\<open>null\<close>.
  \<^verbatim>\<open>bitsAllocated / 8\<close> is exact for an integer \<^verbatim>\<open>bitsAllocated\<close>.
\<close>

definition SynchPixelBufferDecoder_decodeBuffer ::
  "'p codecs \<Rightarrow> string \<Rightarrow> int list \<Rightarrow> pixelMeta \<Rightarrow> error + 'p buffer option" where
  "SynchPixelBufferDecoder_decodeBuffer env a pixelBuffer meta =
    (if a = ''jpeg-lossless'' then
       (if \<not> hasJpegLosslessDecoder env
        then Inl (Error ''No JPEG Lossless decoder provided'')
        else
          (case jpeg_lossless env of
             None \<Rightarrow> Inl (ReferenceError ''jpeg is not defined'')
           | Some decoder \<Rightarrow>
               (let bpe = of_int (bitsAllocated meta) / 8;
                    buf = Uint8Array_from pixelBuffer
                in case decoder buf 0 (length buf) bpe of
                     Inl e \<Rightarrow> Inl e
                   | Inr decoded \<Rightarrow>
                       (if bitsAllocated meta = 8 then
                          (if isSigned meta then new_TypedArray Int8 decoded
                           else new_TypedArray Uint8 decoded)
                        else if bitsAllocated meta = 16 then
                          (if isSigned meta then new_TypedArray Int16 decoded
                           else new_TypedArray Uint16 decoded)
                        else Inr None))))
     else if a = ''jpeg-baseline'' then
       (if \<not> hasJpegBaselineDecoder env
        then Inl (Error ''No JPEG Baseline decoder provided'')
        else
          (case JpegImage env of
             None \<Rightarrow> Inl (ReferenceError ''JpegImage is not defined'')
           | Some decoder \<Rightarrow>
               (case decoder pixelBuffer of
                  Inl e \<Rightarrow> Inl e
                | Inr d \<Rightarrow> Inr (Some (External d)))))
     else if a = ''jpeg2000'' then
       (if \<not> hasJpeg2000Decoder env
        then Inl (Error ''No JPEG 2000 decoder provided'')
        else
          (case JpxImage env of
             None \<Rightarrow> Inl (ReferenceError ''JpxImage is not defined'')
           | Some decoder \<Rightarrow>
               (case decoder pixelBuffer of
                  Inl e \<Rightarrow> Inl e
                | Inr [] \<Rightarrow> Inl (TypeError ''tiles[0] is undefined'')
                | Inr (items # _) \<Rightarrow> Inr (Some (External items)))))
     else if a = ''rle'' then
       (case RleDecoder env pixelBuffer (bitsAllocated meta) (isSigned meta)
               (sliceSize meta) (samplesPerPixel meta) (planarConfiguration meta) of
          Inl e \<Rightarrow> Inl e
        | Inr d \<Rightarrow> Inr (Some (External d)))
     else Inr None)"

text \<open>
  \<^verbatim>\<open>decode(pixelBuffer, pixelMeta, info)\<close>: the count is incremented first; a throw of
  the dispatch leaves the method before any handler is called; otherwise the item event
  is sent, and the two closing events when the count equals \<^verbatim>\<open>numberOfData\<close>.
\<close>

definition SynchPixelBufferDecoder_decode ::
  "'p codecs \<Rightarrow> 'h SynchPixelBufferDecoder \<Rightarrow> int list \<Rightarrow> pixelMeta \<Rightarrow> info \<Rightarrow>
     ('h SynchPixelBufferDecoder, ('h, 'p) call) result" where
  "SynchPixelBufferDecoder_decode env this pixelBuffer meta info =
    (let this1 = this\<lparr>decodeCount := decodeCount this + 1\<rparr> in
     case SynchPixelBufferDecoder_decodeBuffer env (algoName this1) pixelBuffer meta of
       Inl e \<Rightarrow> \<lparr> thrown = Some e, final = this1, calls = [] \<rparr>
     | Inr decodedBuffer \<Rightarrow>
         \<lparr> thrown = None, final = this1,
           calls =
             Fire OnDecodedItem (ondecodeditem this1)
               (ItemEvent [decodedBuffer] (itemNumber info)) #
             (if decodeCount this1 = numberOfData this1
              then [Fire OnDecoded (ondecoded this1) EmptyEvent,
                    Fire OnDecodeEnd (ondecodeend this1) EmptyEvent]
              else []) \<rparr>)"

text \<open>\<^verbatim>\<open>abort()\<close>: nothing to cancel; the abort handler, then the end handler.\<close>

definition SynchPixelBufferDecoder_abort ::
  "'h SynchPixelBufferDecoder \<Rightarrow> ('h SynchPixelBufferDecoder, ('h, 'p) call) result" where
  "SynchPixelBufferDecoder_abort this =
     \<lparr> thrown = None, final = this,
       calls = [Fire OnAbort (onabort this) EmptyEvent,
                Fire OnDecodeEnd (ondecodeend this) EmptyEvent] \<rparr>"

text \<open>The callbacks invoked by a list of calls, and how often a given one is.\<close>

fun fired :: "('h, 'p) call list \<Rightarrow> callback list" where
  "fired [] = []"
| "fired (Fire cb h ev # cs) = cb # fired cs"
| "fired (AddWorkerTask t # cs) = fired cs"
| "fired (PoolAbort # cs) = fired cs"

definition fired_count :: "callback \<Rightarrow> ('h, 'p) call list \<Rightarrow> nat" where
  "fired_count cb cs = count_list (fired cs) cb"

text \<open>
  A batch on one decoder: the decode calls one after the other, each on the object the
  previous call left, whether that call threw or not (the caller may catch and go on).
  The result of each call is kept.
\<close>

type_synonym decode_args = "int list \<times> pixelMeta \<times> info"

fun SynchPixelBufferDecoder_decode_all ::
  "'p codecs \<Rightarrow> 'h SynchPixelBufferDecoder \<Rightarrow> decode_args list \<Rightarrow>
     ('h SynchPixelBufferDecoder, ('h, 'p) call) result list" where
  "SynchPixelBufferDecoder_decode_all env this [] = []"
| "SynchPixelBufferDecoder_decode_all env this ((pixelBuffer, meta, info) # cs) =
     (let r = SynchPixelBufferDecoder_decode env this pixelBuffer meta info
      in r # SynchPixelBufferDecoder_decode_all env (final r) cs)"

text \<open>A decode call succeeds when its dispatch throws nothing.\<close>

fun decodes :: "'p codecs \<Rightarrow> string \<Rightarrow> decode_args \<Rightarrow> bool" where
  "decodes env a (pixelBuffer, meta, info) =
     (case SynchPixelBufferDecoder_decodeBuffer env a pixelBuffer meta of
        Inl e \<Rightarrow> False | Inr d \<Rightarrow> True)"

text \<open>The item event of a succeeding call: the item handler of the decoder, invoked with
  the decoded buffer and the item number of the call.\<close>

fun item_event_of ::
  "'p codecs \<Rightarrow> 'h SynchPixelBufferDecoder \<Rightarrow> decode_args \<Rightarrow> ('h, 'p) call" where
  "item_event_of env this (pixelBuffer, meta, info) =
     Fire OnDecodedItem (ondecodeditem this)
       (ItemEvent
          [case SynchPixelBufferDecoder_decodeBuffer env (algoName this) pixelBuffer meta of
             Inl e \<Rightarrow> None | Inr d \<Rightarrow> d]
          (itemNumber info))"

text \<open>The buffers handed to the item handler by a list of calls.\<close>

fun delivered :: "('h, 'p) call list \<Rightarrow> 'p buffer option list" where
  "delivered [] = []"
| "delivered (Fire cb h (ItemEvent ds k) # cs) = ds @ delivered cs"
| "delivered (c # cs) = delivered cs"

subsection \<open>Concrete engines and inputs\<close>

text \<open>Engines for evaluating the decoders on concrete inputs: a lossless engine that
  returns the bytes it is given, a baseline engine that rejects the empty buffer, no
  JPEG 2000 engine, and an RLE decoder that returns the slice size.\<close>

definition sample_codecs :: "nat codecs" where
  "sample_codecs =
     \<lparr> jpeg_lossless = Some (\<lambda>b off len bpe. Inr b),
       JpegImage = Some (\<lambda>b. if b = [] then Inl (Error ''unexpected end of data'')
                               else Inr (length b)),
       JpxImage = None,
       RleDecoder = (\<lambda>b ba sg sl sp pc. Inr (nat sl)) \<rparr>"

definition no_codecs :: "nat codecs" where
  "no_codecs =
     \<lparr> jpeg_lossless = None, JpegImage = None, JpxImage = None,
       RleDecoder = (\<lambda>b ba sg sl sp pc. Inr (nat sl)) \<rparr>"

definition sample_meta :: "int \<Rightarrow> bool \<Rightarrow> pixelMeta" where
  "sample_meta bits sg =
     \<lparr> bitsAllocated = bits, isSigned = sg, sliceSize = 4, samplesPerPixel = 1,
       planarConfiguration = 0 \<rparr>"

definition sample_info :: "int \<Rightarrow> info" where
  "sample_info k = \<lparr> itemNumber = k \<rparr>"


section \<open>AsynchPixelBufferDecoder\<close>

text \<open>
  The thread pool (\<^verbatim>\<open>new ThreadPool(10)\<close>, imported from the thread utilities) is used
  through its six handler fields, which the decoder writes, and its methods
  \<^verbatim>\<open>addWorkerTask\<close> and \<^verbatim>\<open>abort\<close>, which the decoder calls. The pool object is the record
  of the six fields; a call of one of its methods is recorded in the list of calls, and
  is taken to return normally.
\<close>

record 'h ThreadPool =
  onworkstart :: "'h handler"
  onworkitem :: "'h handler"
  onwork :: "'h handler"
  onworkend :: "'h handler"
  pool_onerror :: "'h handler"
  pool_onabort :: "'h handler"

definition ThreadPool_new :: "nat \<Rightarrow> 'h ThreadPool" where
  "ThreadPool_new poolSize =
     \<lparr> onworkstart = Default, onworkitem = Default, onwork = Default,
       onworkend = Default, pool_onerror = Default, pool_onabort = Default \<rparr>"

record 'h AsynchPixelBufferDecoder = "'h handlers" +
  script :: string
  pool :: "'h ThreadPool"
  areCallbacksSet :: bool

definition AsynchPixelBufferDecoder_new :: "string \<Rightarrow> int \<Rightarrow> 'h AsynchPixelBufferDecoder" where
  "AsynchPixelBufferDecoder_new s n =
     \<lparr> ondecodestart = Default, ondecodeditem = Default, ondecoded = Default,
       ondecodeend = Default, onerror = Default, onabort = Default,
       script = s, pool = ThreadPool_new 10, areCallbacksSet = False \<rparr>"

definition AsynchPixelBufferDecoder_decode ::
  "'h AsynchPixelBufferDecoder \<Rightarrow> int list \<Rightarrow> pixelMeta \<Rightarrow> info \<Rightarrow>
     ('h AsynchPixelBufferDecoder, ('h, 'p) call) result" where
  "AsynchPixelBufferDecoder_decode this pixelBuffer meta info =
    (let this1 =
           (if \<not> areCallbacksSet this then
              this\<lparr> areCallbacksSet := True,
                    pool := (pool this)
                      \<lparr> onworkstart := ondecodestart this,
                        onworkitem := ondecodeditem this,
                        onwork := ondecoded this,
                        onworkend := ondecodeend this,
                        pool_onerror := onerror this,
                        pool_onabort := onabort this \<rparr> \<rparr>
            else this);
         workerTask = WorkerTask (script this1) pixelBuffer meta info
     in \<lparr> thrown = None, final = this1, calls = [AddWorkerTask workerTask] \<rparr>)"

definition AsynchPixelBufferDecoder_abort ::
  "'h AsynchPixelBufferDecoder \<Rightarrow> ('h AsynchPixelBufferDecoder, ('h, 'p) call) result" where
  "AsynchPixelBufferDecoder_abort this =
     \<lparr> thrown = None, final = this, calls = [PoolAbort] \<rparr>"

section \<open>PixelBufferDecoder\<close>

text \<open>The private field \<^verbatim>\<open>#pixelDecoder\<close> holds one of the two decoders.\<close>

datatype 'h delegate =
    Asynch "'h AsynchPixelBufferDecoder"
  | Synch "'h SynchPixelBufferDecoder"

record 'h PixelBufferDecoder = "'h handlers" +
  pbd_algoName :: string
  pbd_numberOfData :: int
  pixelDecoder :: "'h delegate"
  pbd_areCallbacksSet :: bool

text \<open>
  The registry \<^verbatim>\<open>decoderScripts\<close> maps an algorithm name to the path of a worker script;
  \<open>None\<close> is a name for which \<^verbatim>\<open>typeof decoderScripts[algoName]\<close> is \<^verbatim>\<open>'undefined'\<close>.
\<close>

definition PixelBufferDecoder_new ::
  "(string \<rightharpoonup> string) \<Rightarrow> string \<Rightarrow> int \<Rightarrow> 'h PixelBufferDecoder" where
  "PixelBufferDecoder_new decoderScripts a n =
     \<lparr> ondecodestart = Default, ondecodeditem = Default, ondecoded = Default,
       ondecodeend = Default, onerror = Default, onabort = Default,
       pbd_algoName = a, pbd_numberOfData = n,
       pixelDecoder =
         (case decoderScripts a of
            Some s \<Rightarrow> Asynch (AsynchPixelBufferDecoder_new s n)
          | None \<Rightarrow> Synch (SynchPixelBufferDecoder_new a n)),
       pbd_areCallbacksSet = False \<rparr>"

text \<open>The six assignments \<^verbatim>\<open>this.#pixelDecoder.on... = this.on...\<close>.\<close>

definition set_callbacks ::
  "('h, 'a) handlers_scheme \<Rightarrow> ('h, 'b) handlers_scheme \<Rightarrow> ('h, 'b) handlers_scheme" where
  "set_callbacks this d =
     d\<lparr> ondecodestart := ondecodestart this,
        ondecodeditem := ondecodeditem this,
        ondecoded := ondecoded this,
        ondecodeend := ondecodeend this,
        onerror := onerror this,
        onabort := onabort this \<rparr>"

definition PixelBufferDecoder_decode ::
  "'p codecs \<Rightarrow> 'h PixelBufferDecoder \<Rightarrow> int list \<Rightarrow> pixelMeta \<Rightarrow> info \<Rightarrow>
     ('h PixelBufferDecoder, ('h, 'p) call) result" where
  "PixelBufferDecoder_decode env this pixelBuffer meta info =
    (let this1 =
           (if \<not> pbd_areCallbacksSet this then
              this\<lparr> pbd_areCallbacksSet := True,
                    pixelDecoder :=
                      (case pixelDecoder this of
                         Asynch d \<Rightarrow> Asynch (set_callbacks this d)
                       | Synch d \<Rightarrow> Synch (set_callbacks this d)) \<rparr>
            else this)
     in case pixelDecoder this1 of
          Asynch d \<Rightarrow>
            (let r = AsynchPixelBufferDecoder_decode d pixelBuffer meta info
             in \<lparr> thrown = thrown r, final = this1\<lparr>pixelDecoder := Asynch (final r)\<rparr>,
                  calls = calls r \<rparr>)
        | Synch d \<Rightarrow>
            (let r = SynchPixelBufferDecoder_decode env d pixelBuffer meta info
             in \<lparr> thrown = thrown r, final = this1\<lparr>pixelDecoder := Synch (final r)\<rparr>,
                  calls = calls r \<rparr>))"

definition PixelBufferDecoder_abort ::
  "'h PixelBufferDecoder \<Rightarrow> ('h PixelBufferDecoder, ('h, 'p) call) result" where
  "PixelBufferDecoder_abort this =
    (case pixelDecoder this of
       Asynch d \<Rightarrow>
         (let r = AsynchPixelBufferDecoder_abort d
          in \<lparr> thrown = thrown r, final = this\<lparr>pixelDecoder := Asynch (final r)\<rparr>,
               calls = calls r \<rparr>)
     | Synch d \<Rightarrow>
         (let r = SynchPixelBufferDecoder_abort d
          in \<lparr> thrown = thrown r, final = this\<lparr>pixelDecoder := Synch (final r)\<rparr>,
               calls = calls r \<rparr>))"

subsection \<open>A client of the facade\<close>

text \<open>
  What a client can do with a \<^verbatim>\<open>PixelBufferDecoder\<close> and the registry: assign one of the
  six handler fields of the facade, call \<^verbatim>\<open>decode\<close> or \<^verbatim>\<open>abort\<close>, and add or remove an
  entry of \<^verbatim>\<open>decoderScripts\<close>. The fields of the delegate are private to the facade.
\<close>

datatype 'h op =
    Assign callback "'h handler"
  | Decode "int list" pixelMeta info
  | Abort
  | Register string string
  | Unregister string

record 'h world =
  decoderScripts :: "string \<rightharpoonup> string"
  decoder :: "'h PixelBufferDecoder"

fun get_handler :: "callback \<Rightarrow> ('h, 'a) handlers_scheme \<Rightarrow> 'h handler" where
  "get_handler OnDecodeStart r = ondecodestart r"
| "get_handler OnDecodedItem r = ondecodeditem r"
| "get_handler OnDecoded r = ondecoded r"
| "get_handler OnDecodeEnd r = ondecodeend r"
| "get_handler OnError r = onerror r"
| "get_handler OnAbort r = onabort r"

fun set_handler ::
  "callback \<Rightarrow> 'h handler \<Rightarrow> ('h, 'a) handlers_scheme \<Rightarrow> ('h, 'a) handlers_scheme" where
  "set_handler OnDecodeStart h r = r\<lparr>ondecodestart := h\<rparr>"
| "set_handler OnDecodedItem h r = r\<lparr>ondecodeditem := h\<rparr>"
| "set_handler OnDecoded h r = r\<lparr>ondecoded := h\<rparr>"
| "set_handler OnDecodeEnd h r = r\<lparr>ondecodeend := h\<rparr>"
| "set_handler OnError h r = r\<lparr>onerror := h\<rparr>"
| "set_handler OnAbort h r = r\<lparr>onabort := h\<rparr>"

text \<open>The pool field that the asynchronous decoder wires to each of its handlers.\<close>

fun get_pool_handler :: "callback \<Rightarrow> 'h ThreadPool \<Rightarrow> 'h handler" where
  "get_pool_handler OnDecodeStart p = onworkstart p"
| "get_pool_handler OnDecodedItem p = onworkitem p"
| "get_pool_handler OnDecoded p = onwork p"
| "get_pool_handler OnDecodeEnd p = onworkend p"
| "get_pool_handler OnError p = pool_onerror p"
| "get_pool_handler OnAbort p = pool_onabort p"

fun apply_op ::
  "'p codecs \<Rightarrow> 'h world \<Rightarrow> 'h op \<Rightarrow> ('h world, ('h, 'p) call) result" where
  "apply_op env w (Assign cb h) =
     \<lparr> thrown = None, final = w\<lparr>decoder := set_handler cb h (decoder w)\<rparr>, calls = [] \<rparr>"
| "apply_op env w (Decode pixelBuffer meta info) =
     (let r = PixelBufferDecoder_decode env (decoder w) pixelBuffer meta info
      in \<lparr> thrown = thrown r, final = w\<lparr>decoder := final r\<rparr>, calls = calls r \<rparr>)"
| "apply_op env w Abort =
     (let r = PixelBufferDecoder_abort (decoder w)
      in \<lparr> thrown = thrown r, final = w\<lparr>decoder := final r\<rparr>, calls = calls r \<rparr>)"
| "apply_op env w (Register a s) =
     \<lparr> thrown = None, final = w\<lparr>decoderScripts := (decoderScripts w)(a \<mapsto> s)\<rparr>,
       calls = [] \<rparr>"
| "apply_op env w (Unregister a) =
     \<lparr> thrown = None, final = w\<lparr>decoderScripts := (decoderScripts w)(a := None)\<rparr>,
       calls = [] \<rparr>"

text \<open>A client session: the world after a list of operations, and the calls each made.
  An operation that throws leaves the world it reached; the client goes on.\<close>

fun exec :: "'p codecs \<Rightarrow> 'h world \<Rightarrow> 'h op list \<Rightarrow> 'h world" where
  "exec env w [] = w"
| "exec env w (x # xs) = exec env (final (apply_op env w x)) xs"

fun observe :: "'p codecs \<Rightarrow> 'h world \<Rightarrow> 'h op list \<Rightarrow> ('h, 'p) call list list" where
  "observe env w [] = []"
| "observe env w (x # xs) =
     calls (apply_op env w x) # observe env (final (apply_op env w x)) xs"

text \<open>A world made by constructing a decoder against the registry as it is.\<close>

definition new_world :: "(string \<rightharpoonup> string) \<Rightarrow> string \<Rightarrow> int \<Rightarrow> 'h world" where
  "new_world reg a n =
     \<lparr> decoderScripts = reg, decoder = PixelBufferDecoder_new reg a n \<rparr>"

datatype mode = WorkerPool | Synchronous

definition mode_of :: "'h PixelBufferDecoder \<Rightarrow> mode" where
  "mode_of this = (case pixelDecoder this of Asynch d \<Rightarrow> WorkerPool | Synch d \<Rightarrow> Synchronous)"

text \<open>The handler the delegate holds for a callback, and the one its pool holds (worker
  pool mode only).\<close>

definition delegate_handler :: "'h PixelBufferDecoder \<Rightarrow> callback \<Rightarrow> 'h handler" where
  "delegate_handler this cb =
     (case pixelDecoder this of
        Asynch d \<Rightarrow> get_handler cb d
      | Synch d \<Rightarrow> get_handler cb d)"

definition pool_handler :: "'h PixelBufferDecoder \<Rightarrow> callback \<Rightarrow> 'h handler option" where
  "pool_handler this cb =
     (case pixelDecoder this of
        Asynch d \<Rightarrow> Some (get_pool_handler cb (pool d))
      | Synch d \<Rightarrow> None)"

text \<open>Before the first decode call neither guard flag is set; after it both are.\<close>

definition fresh :: "'h PixelBufferDecoder \<Rightarrow> bool" where
  "fresh this =
     (\<not> pbd_areCallbacksSet this \<and>
      (case pixelDecoder this of Asynch d \<Rightarrow> \<not> areCallbacksSet d | Synch d \<Rightarrow> True))"

definition wired :: "'h PixelBufferDecoder \<Rightarrow> bool" where
  "wired this =
     (pbd_areCallbacksSet this \<and>
      (case pixelDecoder this of Asynch d \<Rightarrow> areCallbacksSet d | Synch d \<Rightarrow> True))"

fun is_decode :: "'h op \<Rightarrow> bool" where
  "is_decode (Decode b m i) = True"
| "is_decode x = False"

text \<open>A call that, if it invokes a handler, invokes the one \<open>H\<close> gives for its callback.\<close>

fun fires_from :: "(callback \<Rightarrow> 'h handler) \<Rightarrow> ('h, 'p) call \<Rightarrow> bool" where
  "fires_from H (Fire cb h ev) = (h = H cb)"
| "fires_from H c = True"

section \<open>FilesLoader\<close>

text \<open>
  The counters of the files loader. \<^verbatim>\<open>#inputData\<close> is \<^verbatim>\<open>null\<close> (\<open>None\<close>) until a load
  stores its input; \<^verbatim>\<open>load\<close> returns before storing an input that is undefined or empty.
  \<^verbatim>\<open>#addLoadend\<close> is the \<^verbatim>\<open>onloadend\<close> handler both of every file reader and of the
  running loader.
\<close>

record ('f, 'r, 'l, 'h) FilesLoader =
  inputData :: "'f list option"
  readers :: "'r list"
  runningLoader :: "'l option"
  nLoad :: int
  nLoadend :: int
  onloadend :: "'h handler"

text \<open>\<^verbatim>\<open>this.onloadend({source: this.#inputData})\<close>\<close>

datatype ('f, 'h) loader_call = FireLoadEnd "'h handler" "'f list"

definition FilesLoader_storeInputData ::
  "('f, 'r, 'l, 'h) FilesLoader \<Rightarrow> 'f list \<Rightarrow> ('f, 'r, 'l, 'h) FilesLoader" where
  "FilesLoader_storeInputData this data =
     this\<lparr> inputData := Some data, nLoad := 0, nLoadend := 0,
           readers := [], runningLoader := None \<rparr>"

definition FilesLoader_addLoadend ::
  "('f, 'r, 'l, 'h) FilesLoader \<Rightarrow>
     (('f, 'r, 'l, 'h) FilesLoader, ('f, 'h) loader_call) result" where
  "FilesLoader_addLoadend this =
    (let this1 = this\<lparr>nLoadend := nLoadend this + 1\<rparr> in
     case inputData this1 of
       None \<Rightarrow>
         \<lparr> thrown = Some (TypeError ''cannot read properties of null''),
           final = this1, calls = [] \<rparr>
     | Some data \<Rightarrow>
         \<lparr> thrown = None, final = this1,
           calls = (if nLoadend this1 = 2 * int (length data)
                    then [FireLoadEnd (onloadend this1) data] else []) \<rparr>)"

text \<open>The load end events of a batch, received one after the other.\<close>

fun FilesLoader_addLoadend_times ::
  "nat \<Rightarrow> ('f, 'r, 'l, 'h) FilesLoader \<Rightarrow>
     (('f, 'r, 'l, 'h) FilesLoader, ('f, 'h) loader_call) result list" where
  "FilesLoader_addLoadend_times 0 this = []"
| "FilesLoader_addLoadend_times (Suc n) this =
     (let r = FilesLoader_addLoadend this
      in r # FilesLoader_addLoadend_times n (final r))"

definition sample_batch :: "decode_args list" where
  "sample_batch =
     [([1, 2], sample_meta 8 False, sample_info 0),
      ([3, 4], sample_meta 8 False, sample_info 1),
      ([5, 6], sample_meta 8 False, sample_info 2)]"

text \<open>What the lossless engine returns for an input: \<open>None\<close> when it is not loaded or throws.\<close>

definition lossless_output :: "'p codecs \<Rightarrow> int list \<Rightarrow> pixelMeta \<Rightarrow> ArrayBuffer option" where
  "lossless_output env pixelBuffer meta =
     (case jpeg_lossless env of
        None \<Rightarrow> None
      | Some engine \<Rightarrow>
          (case engine (Uint8Array_from pixelBuffer) 0 (length (Uint8Array_from pixelBuffer))
                  (of_int (bitsAllocated meta) / 8) of
             Inl e \<Rightarrow> None
           | Inr decoded \<Rightarrow> Some decoded))"

text \<open>A batch whose first input the baseline engine rejects.\<close>

definition faulty_batch :: "decode_args list" where
  "faulty_batch =
     [([], sample_meta 8 False, sample_info 0),
      ([7, 8, 9], sample_meta 8 False, sample_info 1)]"

text \<open>A loader that has loaded before, used to evaluate the counters on a new input.\<close>

definition used_loader :: "(string, nat, nat, nat) FilesLoader" where
  "used_loader =
     \<lparr> inputData = Some [''old.dcm''], readers = [1], runningLoader = Some 1,
       nLoad = 1, nLoadend = 2, onloadend = Assigned 7 \<rparr>"

text \<open>What a decoder in worker pool mode, with script \<open>s\<close>, does for a client operation.\<close>

fun worker_calls :: "string \<Rightarrow> 'h op \<Rightarrow> ('h, 'p) call list" where
  "worker_calls s (Decode pixelBuffer meta info) = [AddWorkerTask (WorkerTask s pixelBuffer meta info)]"
| "worker_calls s Abort = [PoolAbort]"
| "worker_calls s x = []"

fun is_fire :: "('h, 'p) call \<Rightarrow> bool" where
  "is_fire (Fire cb h ev) = True"
| "is_fire c = False"

text \<open>Client operations for evaluating the facade on concrete sessions.\<close>

definition sample_decode :: "int \<Rightarrow> 'h op" where
  "sample_decode k = Decode [1, 2] (sample_meta 8 False) (sample_info k)"

definition rle_registry :: "string \<rightharpoonup> string" where
  "rle_registry = [''rle'' \<mapsto> ''rle.js'']"

text \<open>A client session around a first decode call.\<close>

definition sample_pre :: "nat op list" where
  "sample_pre = [Assign OnDecoded (Assigned 1), Abort]"

definition sample_post :: "nat op list" where
  "sample_post = [Assign OnDecoded (Assigned 2), Assign OnAbort (Assigned 3), sample_decode 1, Abort]"

text \<open>A facade in worker pool mode whose all-decoded handler was assigned before any decode
  call, and the same facade after a first decode call and a later assignment.\<close>

definition sample_facade :: "nat PixelBufferDecoder" where
  "sample_facade =
     set_handler OnDecoded (Assigned 1) (PixelBufferDecoder_new rle_registry ''rle'' 2)"

definition sample_facade_later :: "nat PixelBufferDecoder" where
  "sample_facade_later =
     set_handler OnDecoded (Assigned 2)
       (final (PixelBufferDecoder_decode sample_codecs sample_facade
                 [1, 2] (sample_meta 8 False) (sample_info 0)))"

section \<open>Properties\<close>

text \<open>
  C5. Calling \<^verbatim>\<open>abort()\<close> on a synchronous decoder, in any state, throws nothing, leaves
  the decoder as it is, and invokes exactly two handlers: the abort handler, then the
  decode-end handler, each with an empty event. So each abort call fires one abort event,
  then one decode-end event, and no all-decoded event.
\<close>

theorem C5_synch_abort_events:
  "calls (SynchPixelBufferDecoder_abort this) =
     [Fire OnAbort (onabort this) EmptyEvent, Fire OnDecodeEnd (ondecodeend this) EmptyEvent]
   \<and> fired (calls (SynchPixelBufferDecoder_abort this ::
                      ('h SynchPixelBufferDecoder, ('h, 'p) call) result))
        = [OnAbort, OnDecodeEnd]
   \<and> fired_count OnAbort (calls (SynchPixelBufferDecoder_abort this)) = 1
   \<and> fired_count OnDecodeEnd (calls (SynchPixelBufferDecoder_abort this)) = 1
   \<and> fired_count OnDecoded (calls (SynchPixelBufferDecoder_abort this)) = 0
   \<and> thrown (SynchPixelBufferDecoder_abort this) = None
   \<and> final (SynchPixelBufferDecoder_abort this) = this"
  by (simp add: SynchPixelBufferDecoder_abort_def fired_count_def)

subsection \<open>The synchronous decoder, call by call\<close>

lemma decode_final:
  "final (SynchPixelBufferDecoder_decode env this b m i) =
     this\<lparr>decodeCount := decodeCount this + 1\<rparr>"
  by (simp add: SynchPixelBufferDecoder_decode_def Let_def split: sum.splits)

lemma decode_step:
  "decodes env (algoName this) (b, m, i) \<Longrightarrow>
   SynchPixelBufferDecoder_decode env this b m i =
     \<lparr> thrown = None, final = this\<lparr>decodeCount := decodeCount this + 1\<rparr>,
       calls = item_event_of env this (b, m, i) #
         (if decodeCount this + 1 = numberOfData this
          then [Fire OnDecoded (ondecoded this) EmptyEvent,
                Fire OnDecodeEnd (ondecodeend this) EmptyEvent]
          else []) \<rparr>"
  by (simp add: SynchPixelBufferDecoder_decode_def split: sum.splits)

lemma decode_throws:
  "\<not> decodes env (algoName this) (b, m, i) \<Longrightarrow>
   calls (SynchPixelBufferDecoder_decode env this b m i) = [] \<and>
   thrown (SynchPixelBufferDecoder_decode env this b m i) \<noteq> None"
  by (simp add: SynchPixelBufferDecoder_decode_def split: sum.splits)

lemma item_event_of_count [simp]:
  "item_event_of env (this\<lparr>decodeCount := k\<rparr>) c = item_event_of env this c"
  by (cases c) simp

lemma fired_append [simp]: "fired (xs @ ys) = fired xs @ fired ys"
  by (induction xs rule: fired.induct) simp_all

lemma fired_item_event_of [simp]:
  "fired (item_event_of env this c # xs) = OnDecodedItem # fired xs"
  by (cases c) simp

lemma decode_all_length [simp]:
  "length (SynchPixelBufferDecoder_decode_all env this cs) = length cs"
  by (induction cs arbitrary: this) (auto simp: Let_def)

lemma decode_all_calls:
  "cs \<noteq> [] \<Longrightarrow> list_all (decodes env (algoName this)) cs \<Longrightarrow>
   numberOfData this = decodeCount this + int (length cs) \<Longrightarrow>
   map calls (SynchPixelBufferDecoder_decode_all env this cs) =
     map (\<lambda>c. [item_event_of env this c]) (butlast cs) @
     [[item_event_of env this (last cs),
       Fire OnDecoded (ondecoded this) EmptyEvent,
       Fire OnDecodeEnd (ondecodeend this) EmptyEvent]]"
proof (induction cs arbitrary: this)
  case Nil
  then show ?case by simp
next
  case (Cons c cs)
  obtain b m i where c: "c = (b, m, i)" by (cases c) auto
  let ?this1 = "this\<lparr>decodeCount := decodeCount this + 1\<rparr>"
  from Cons.prems c have ok: "decodes env (algoName this) (b, m, i)" by simp
  note step = decode_step [OF ok]
  show ?case
  proof (cases "cs = []")
    case True
    with Cons.prems c step show ?thesis by simp
  next
    case False
    from Cons.prems have all: "list_all (decodes env (algoName ?this1)) cs" by simp
    from Cons.prems have n: "numberOfData ?this1 = decodeCount ?this1 + int (length cs)" by simp
    from False Cons.prems have ne: "decodeCount this + 1 \<noteq> numberOfData this" by simp
    from Cons.IH [OF False all n] step ne c False show ?thesis by simp
  qed
qed

lemma decode_all_thrown:
  "list_all (decodes env (algoName this)) cs \<Longrightarrow>
   map thrown (SynchPixelBufferDecoder_decode_all env this cs) = replicate (length cs) None"
proof (induction cs arbitrary: this)
  case Nil
  then show ?case by simp
next
  case (Cons c cs)
  obtain b m i where c: "c = (b, m, i)" by (cases c) auto
  from Cons.prems c have ok: "decodes env (algoName this) (b, m, i)" by simp
  from Cons.prems have
    "list_all (decodes env (algoName (this\<lparr>decodeCount := decodeCount this + 1\<rparr>))) cs"
    by simp
  from Cons.IH [OF this] decode_step [OF ok] c show ?case by simp
qed

lemma fired_map_items:
  "fired (map (item_event_of env this) xs) = replicate (length xs) OnDecodedItem"
  by (induction xs) simp_all

lemma count_items_take:
  "fired_count OnDecodedItem (concat (take j (map (\<lambda>c. [item_event_of env this c]) xs @ [[item_event_of env this x, Fire OnDecoded h EmptyEvent, Fire OnDecodeEnd h' EmptyEvent]]))) = min j (Suc (length xs))"
proof (induction xs arbitrary: j)
  case Nil
  then show ?case by (cases j) (simp_all add: fired_count_def)
next
  case (Cons a xs)
  show ?case
  proof (cases j)
    case 0
    then show ?thesis by (simp add: fired_count_def)
  next
    case (Suc j')
    with Cons.IH [of j'] show ?thesis by (simp add: fired_count_def)
  qed
qed

lemma decoded_in_nth:
  "k < Suc (length xs) \<Longrightarrow>
   (OnDecoded \<in> set (fired ((map (\<lambda>c. [item_event_of env this c]) xs @ [[item_event_of env this x, Fire OnDecoded h EmptyEvent, Fire OnDecodeEnd h' EmptyEvent]]) ! k)))
     = (k = length xs)"
  by (cases x) (auto simp: nth_append)

text \<open>
  C1. A batch of \<open>K \<ge> 1\<close> decode calls on a synchronous decoder that expects \<open>K\<close> items
  and has decoded none, every call succeeding. Call by call: each of the first \<open>K - 1\<close>
  calls invokes the item handler and nothing else; the last call invokes the item handler, then
  the all-decoded handler, then the decode-end handler. No call throws. Over the batch the
  callbacks are \<open>K\<close> item events, one all-decoded event, one decode-end event, in that
  order, and a call fires the all-decoded event exactly when the number of item events
  delivered up to and including that call equals \<open>K\<close>.
\<close>

theorem C1_synch_batch_events:
  assumes "decodeCount this = 0"
    and "numberOfData this = int (length cs)"
    and "cs \<noteq> []"
    and "list_all (decodes env (algoName this)) cs"
  shows "map calls (SynchPixelBufferDecoder_decode_all env this cs) =
           map (\<lambda>c. [item_event_of env this c]) (butlast cs) @
           [[item_event_of env this (last cs),
             Fire OnDecoded (ondecoded this) EmptyEvent,
             Fire OnDecodeEnd (ondecodeend this) EmptyEvent]]
       \<and> map thrown (SynchPixelBufferDecoder_decode_all env this cs) = replicate (length cs) None
       \<and> fired (concat (map calls (SynchPixelBufferDecoder_decode_all env this cs))) =
           replicate (length cs) OnDecodedItem @ [OnDecoded, OnDecodeEnd]
       \<and> (\<forall>k < length cs.
            (OnDecoded \<in> set (fired (calls (SynchPixelBufferDecoder_decode_all env this cs ! k)))) =
            (fired_count OnDecodedItem
               (concat (map calls (take (Suc k) (SynchPixelBufferDecoder_decode_all env this cs))))
             = length cs))"
proof -
  let ?rs = "SynchPixelBufferDecoder_decode_all env this cs"
  let ?L = "map (\<lambda>c. [item_event_of env this c]) (butlast cs) @
           [[item_event_of env this (last cs),
             Fire OnDecoded (ondecoded this) EmptyEvent,
             Fire OnDecodeEnd (ondecodeend this) EmptyEvent]]"
  from assms have n: "numberOfData this = decodeCount this + int (length cs)" by simp
  have A: "map calls ?rs = ?L"
    by (rule decode_all_calls [OF assms(3) assms(4) n])
  have B: "map thrown ?rs = replicate (length cs) None"
    by (rule decode_all_thrown [OF assms(4)])
  have len: "Suc (length (butlast cs)) = length cs"
    using assms(3) by simp
  obtain n where n: "length cs = Suc n"
    using assms(3) by (cases cs) auto
  have C0: "fired (concat ?L) =
              (replicate n OnDecodedItem @ [OnDecodedItem]) @ [OnDecoded, OnDecodeEnd]"
    by (simp add: fired_map_items n)
  have C1: "replicate n OnDecodedItem @ [OnDecodedItem] = replicate (length cs) OnDecodedItem"
    by (simp add: n replicate_append_same)
  have C: "fired (concat (map calls ?rs)) =
             replicate (length cs) OnDecodedItem @ [OnDecoded, OnDecodeEnd]"
    unfolding A using C0 unfolding C1 .
  have D: "(OnDecoded \<in> set (fired (calls (?rs ! k)))) =
           (fired_count OnDecodedItem (concat (map calls (take (Suc k) ?rs))) = length cs)"
    if k: "k < length cs" for k
  proof -
    have "calls (?rs ! k) = map calls ?rs ! k"
      using k by simp
    then have 1: "calls (?rs ! k) = ?L ! k" using A by simp
    have "map calls (take (Suc k) ?rs) = take (Suc k) (map calls ?rs)"
      by (rule take_map [symmetric])
    then have "map calls (take (Suc k) ?rs) = take (Suc k) ?L"
      by (simp only: A)
    then have 2: "fired_count OnDecodedItem (concat (map calls (take (Suc k) ?rs))) = min (Suc k) (Suc (length (butlast cs)))"
      by (simp only: count_items_take)
    from k len have 3: "k < Suc (length (butlast cs))" by simp
    have "(OnDecoded \<in> set (fired (?L ! k))) = (k = length (butlast cs))"
      by (rule decoded_in_nth [OF 3])
    with 1 2 k len show ?thesis by auto
  qed
  from A B C D show ?thesis by blast
qed

subsection \<open>The synchronous decoder on concrete inputs\<close>

lemmas sample_defs =
  sample_batch_def sample_meta_def sample_info_def sample_codecs_def no_codecs_def
  SynchPixelBufferDecoder_new_def SynchPixelBufferDecoder_decodeBuffer_def
  hasJpegLosslessDecoder_def hasJpegBaselineDecoder_def hasJpeg2000Decoder_def

text \<open>
  C1 at a batch of three RLE frames (8 bits, unsigned) on a fresh decoder that expects three.
\<close>

theorem C1_witness:
  "map calls (SynchPixelBufferDecoder_decode_all sample_codecs
      (SynchPixelBufferDecoder_new ''rle'' 3 :: nat SynchPixelBufferDecoder) sample_batch) =
     [[Fire OnDecodedItem Default (ItemEvent [Some (External 4)] 0)],
      [Fire OnDecodedItem Default (ItemEvent [Some (External 4)] 1)],
      [Fire OnDecodedItem Default (ItemEvent [Some (External 4)] 2),
       Fire OnDecoded Default EmptyEvent,
       Fire OnDecodeEnd Default EmptyEvent]]
   \<and> fired (concat (map calls (SynchPixelBufferDecoder_decode_all sample_codecs
      (SynchPixelBufferDecoder_new ''rle'' 3 :: nat SynchPixelBufferDecoder) sample_batch))) =
     [OnDecodedItem, OnDecodedItem, OnDecodedItem, OnDecoded, OnDecodeEnd]"
proof -
  let ?d = "SynchPixelBufferDecoder_new ''rle'' 3 :: nat SynchPixelBufferDecoder"
  have h1: "decodeCount ?d = 0"
    by (simp add: SynchPixelBufferDecoder_new_def)
  have h2: "numberOfData ?d = int (length sample_batch)"
    by (simp add: SynchPixelBufferDecoder_new_def sample_batch_def)
  have h3: "sample_batch \<noteq> []"
    by (simp add: sample_batch_def)
  have h4: "list_all (decodes sample_codecs (algoName ?d)) sample_batch"
    by (simp add: sample_defs)
  have e: "replicate (length sample_batch) OnDecodedItem = [OnDecodedItem, OnDecodedItem, OnDecodedItem]"
    by (simp add: sample_batch_def)
  from C1_synch_batch_events [OF h1 h2 h3 h4] show ?thesis
    unfolding e by (simp add: sample_defs)
qed


text \<open>
  C2 as stated fails at the name \<^verbatim>\<open>jpeg-ls\<close>, which is none of the four: the call throws
  nothing and invokes the item handler, with a \<^verbatim>\<open>null\<close> buffer.
\<close>

theorem C2_absent_algorithm_counterexample:
  "thrown (SynchPixelBufferDecoder_decode sample_codecs
      (SynchPixelBufferDecoder_new ''jpeg-ls'' 3 :: nat SynchPixelBufferDecoder)
      [1, 2] (sample_meta 8 False) (sample_info 0)) = None
   \<and> calls (SynchPixelBufferDecoder_decode sample_codecs
      (SynchPixelBufferDecoder_new ''jpeg-ls'' 3 :: nat SynchPixelBufferDecoder)
      [1, 2] (sample_meta 8 False) (sample_info 0)) =
     [Fire OnDecodedItem Default (ItemEvent [None] 0)]"
  by (simp add: SynchPixelBufferDecoder_decode_def sample_defs)

text \<open>
  C2, amended. For an algorithm name that is none of \<^verbatim>\<open>jpeg-lossless\<close>, \<^verbatim>\<open>jpeg-baseline\<close>,
  \<^verbatim>\<open>jpeg2000\<close> and \<^verbatim>\<open>rle\<close>, a decode call of the synchronous decoder throws no error and
  runs no codec, whatever the engines and the input: it counts the call, invokes the item
  handler with a \<^verbatim>\<open>null\<close> buffer (no decoded payload) and the item number of the call, and
  sends the two closing events if the count has reached the expected number.
\<close>

theorem C2_absent_algorithm_null_item:
  assumes "algoName this \<notin> {''jpeg-lossless'', ''jpeg-baseline'', ''jpeg2000'', ''rle''}"
  shows "SynchPixelBufferDecoder_decode env this pixelBuffer meta info =
           \<lparr> thrown = None,
             final = this\<lparr>decodeCount := decodeCount this + 1\<rparr>,
             calls =
               Fire OnDecodedItem (ondecodeditem this) (ItemEvent [None] (itemNumber info)) #
               (if decodeCount this + 1 = numberOfData this
                then [Fire OnDecoded (ondecoded this) EmptyEvent,
                      Fire OnDecodeEnd (ondecodeend this) EmptyEvent]
                else []) \<rparr>
         \<and> delivered (calls (SynchPixelBufferDecoder_decode env this pixelBuffer meta info)) = [None]"
proof -
  from assms have "SynchPixelBufferDecoder_decodeBuffer env (algoName this) pixelBuffer meta = Inr None"
    by (simp add: SynchPixelBufferDecoder_decodeBuffer_def)
  then show ?thesis
    by (simp add: SynchPixelBufferDecoder_decode_def)
qed

text \<open>
  C2 (amended) at the name \<^verbatim>\<open>jpeg-ls\<close>, on a fresh decoder that expects one item.
\<close>

theorem C2_witness:
  "SynchPixelBufferDecoder_decode no_codecs
      (SynchPixelBufferDecoder_new ''jpeg-ls'' 1 :: nat SynchPixelBufferDecoder)
      [1, 2] (sample_meta 8 False) (sample_info 0) =
     \<lparr> thrown = None,
       final = (SynchPixelBufferDecoder_new ''jpeg-ls'' 1)\<lparr>decodeCount := 1\<rparr>,
       calls = [Fire OnDecodedItem Default (ItemEvent [None] 0),
                Fire OnDecoded Default EmptyEvent,
                Fire OnDecodeEnd Default EmptyEvent] \<rparr>"
proof -
  let ?d = "SynchPixelBufferDecoder_new ''jpeg-ls'' 1 :: nat SynchPixelBufferDecoder"
  have h: "algoName ?d \<notin> {''jpeg-lossless'', ''jpeg-baseline'', ''jpeg2000'', ''rle''}"
    by (simp add: SynchPixelBufferDecoder_new_def)
  from C2_absent_algorithm_null_item [OF h, of no_codecs "[1, 2]" "sample_meta 8 False" "sample_info 0"]
  show ?thesis
    by (simp add: SynchPixelBufferDecoder_new_def sample_info_def)
qed

text \<open>
  C3 as stated fails for \<^verbatim>\<open>jpeg2000\<close> with no engine loaded: the call throws the error to
  its caller and the error handler is not invoked.
\<close>

theorem C3_missing_codec_counterexample:
  "thrown (SynchPixelBufferDecoder_decode no_codecs
      (SynchPixelBufferDecoder_new ''jpeg2000'' 3 :: nat SynchPixelBufferDecoder)
      [1, 2] (sample_meta 16 True) (sample_info 0)) =
     Some (Error ''No JPEG 2000 decoder provided'')
   \<and> fired_count OnError (calls (SynchPixelBufferDecoder_decode no_codecs
      (SynchPixelBufferDecoder_new ''jpeg2000'' 3 :: nat SynchPixelBufferDecoder)
      [1, 2] (sample_meta 16 True) (sample_info 0))) = 0"
  by (simp add: SynchPixelBufferDecoder_decode_def sample_defs fired_count_def)

text \<open>
  C3, amended. A decode call of the synchronous decoder for \<^verbatim>\<open>jpeg2000\<close>,
  \<^verbatim>\<open>jpeg-lossless\<close> or \<^verbatim>\<open>jpeg-baseline\<close> whose engine is not loaded throws an \<^verbatim>\<open>Error\<close>
  (\<^verbatim>\<open>No JPEG 2000 decoder provided\<close>, \<^verbatim>\<open>No JPEG Lossless decoder provided\<close>,
  \<^verbatim>\<open>No JPEG Baseline decoder provided\<close>) to the caller of \<^verbatim>\<open>decode\<close>. The call has counted
  itself and invokes no handler at all: no item event, and no error event either.
\<close>

theorem C3_missing_codec_throws:
  "(algoName this = ''jpeg2000'' \<and> \<not> hasJpeg2000Decoder env \<longrightarrow>
      SynchPixelBufferDecoder_decode env this pixelBuffer meta info =
        \<lparr> thrown = Some (Error ''No JPEG 2000 decoder provided''),
          final = this\<lparr>decodeCount := decodeCount this + 1\<rparr>,
          calls = ([] :: ('h, 'p) call list) \<rparr>)
   \<and> (algoName this = ''jpeg-lossless'' \<and> \<not> hasJpegLosslessDecoder env \<longrightarrow>
      SynchPixelBufferDecoder_decode env this pixelBuffer meta info =
        \<lparr> thrown = Some (Error ''No JPEG Lossless decoder provided''),
          final = this\<lparr>decodeCount := decodeCount this + 1\<rparr>,
          calls = [] \<rparr>)
   \<and> (algoName this = ''jpeg-baseline'' \<and> \<not> hasJpegBaselineDecoder env \<longrightarrow>
      SynchPixelBufferDecoder_decode env this pixelBuffer meta info =
        \<lparr> thrown = Some (Error ''No JPEG Baseline decoder provided''),
          final = this\<lparr>decodeCount := decodeCount this + 1\<rparr>,
          calls = [] \<rparr>)"
  by (simp add: SynchPixelBufferDecoder_decode_def SynchPixelBufferDecoder_decodeBuffer_def)

text \<open>
  C3 (amended) for each of the three names, with no engine loaded.
\<close>

theorem C3_witness:
  "SynchPixelBufferDecoder_decode no_codecs
      (SynchPixelBufferDecoder_new ''jpeg2000'' 1 :: nat SynchPixelBufferDecoder)
      [1, 2] (sample_meta 16 True) (sample_info 0) =
     \<lparr> thrown = Some (Error ''No JPEG 2000 decoder provided''),
       final = (SynchPixelBufferDecoder_new ''jpeg2000'' 1)\<lparr>decodeCount := 1\<rparr>,
       calls = [] \<rparr>
   \<and> SynchPixelBufferDecoder_decode no_codecs
      (SynchPixelBufferDecoder_new ''jpeg-lossless'' 1 :: nat SynchPixelBufferDecoder)
      [1, 2] (sample_meta 16 True) (sample_info 0) =
     \<lparr> thrown = Some (Error ''No JPEG Lossless decoder provided''),
       final = (SynchPixelBufferDecoder_new ''jpeg-lossless'' 1)\<lparr>decodeCount := 1\<rparr>,
       calls = [] \<rparr>
   \<and> SynchPixelBufferDecoder_decode no_codecs
      (SynchPixelBufferDecoder_new ''jpeg-baseline'' 1 :: nat SynchPixelBufferDecoder)
      [1, 2] (sample_meta 16 True) (sample_info 0) =
     \<lparr> thrown = Some (Error ''No JPEG Baseline decoder provided''),
       final = (SynchPixelBufferDecoder_new ''jpeg-baseline'' 1)\<lparr>decodeCount := 1\<rparr>,
       calls = [] \<rparr>"
proof -
  have e: "\<not> hasJpeg2000Decoder no_codecs" "\<not> hasJpegLosslessDecoder no_codecs"
    "\<not> hasJpegBaselineDecoder no_codecs"
    by (simp_all add: sample_defs)
  have a: "algoName (SynchPixelBufferDecoder_new x n :: nat SynchPixelBufferDecoder) = x"
    "decodeCount (SynchPixelBufferDecoder_new x n :: nat SynchPixelBufferDecoder) = 0" for x n
    by (simp_all add: SynchPixelBufferDecoder_new_def)
  from C3_missing_codec_throws
         [of "SynchPixelBufferDecoder_new ''jpeg2000'' 1 :: nat SynchPixelBufferDecoder"
             no_codecs "[1, 2]" "sample_meta 16 True" "sample_info 0"]
       C3_missing_codec_throws
         [of "SynchPixelBufferDecoder_new ''jpeg-lossless'' 1 :: nat SynchPixelBufferDecoder"
             no_codecs "[1, 2]" "sample_meta 16 True" "sample_info 0"]
       C3_missing_codec_throws
         [of "SynchPixelBufferDecoder_new ''jpeg-baseline'' 1 :: nat SynchPixelBufferDecoder"
             no_codecs "[1, 2]" "sample_meta 16 True" "sample_info 0"]
  show ?thesis
    by (simp add: e a)
qed

text \<open>
  C8. A \<^verbatim>\<open>jpeg-lossless\<close> decode call of the synchronous decoder that throws nothing hands
  the item handler one array, a view over the bytes the lossless engine returned, whose
  type follows the meta data: \<^verbatim>\<open>Int8Array\<close> for 8 bits signed, \<^verbatim>\<open>Uint8Array\<close> for 8 bits
  unsigned, \<^verbatim>\<open>Int16Array\<close> for 16 bits signed, \<^verbatim>\<open>Uint16Array\<close> for 16 bits unsigned. So
  for 8 or 16 bits allocated the element width of the array is the number of bits allocated
  and the array is signed exactly when the meta data says so.
\<close>

theorem C8_jpeg_lossless_array_type:
  assumes "algoName this = ''jpeg-lossless''"
    and "thrown (SynchPixelBufferDecoder_decode env this pixelBuffer meta info) = None"
  shows "(bitsAllocated meta = 8 \<and> isSigned meta \<longrightarrow>
            (\<exists>buf. lossless_output env pixelBuffer meta = Some buf \<and>
               delivered (calls (SynchPixelBufferDecoder_decode env this pixelBuffer meta info)) =
                 [Some (TypedArray Int8 buf)]))
       \<and> (bitsAllocated meta = 8 \<and> \<not> isSigned meta \<longrightarrow>
            (\<exists>buf. lossless_output env pixelBuffer meta = Some buf \<and>
               delivered (calls (SynchPixelBufferDecoder_decode env this pixelBuffer meta info)) =
                 [Some (TypedArray Uint8 buf)]))
       \<and> (bitsAllocated meta = 16 \<and> isSigned meta \<longrightarrow>
            (\<exists>buf. lossless_output env pixelBuffer meta = Some buf \<and>
               delivered (calls (SynchPixelBufferDecoder_decode env this pixelBuffer meta info)) =
                 [Some (TypedArray Int16 buf)]))
       \<and> (bitsAllocated meta = 16 \<and> \<not> isSigned meta \<longrightarrow>
            (\<exists>buf. lossless_output env pixelBuffer meta = Some buf \<and>
               delivered (calls (SynchPixelBufferDecoder_decode env this pixelBuffer meta info)) =
                 [Some (TypedArray Uint16 buf)]))
       \<and> (bitsAllocated meta \<in> {8, 16} \<longrightarrow>
            (\<exists>t buf. delivered (calls (SynchPixelBufferDecoder_decode env this pixelBuffer meta info)) =
                 [Some (TypedArray t buf)] \<and>
               bits_per_element t = bitsAllocated meta \<and> is_signed_type t = isSigned meta))"
  using assms
  by (auto simp: SynchPixelBufferDecoder_decode_def SynchPixelBufferDecoder_decodeBuffer_def
        lossless_output_def new_TypedArray_def Let_def
      split: sum.splits option.splits if_splits)

text \<open>
  C8 at four bytes, 16 bits allocated, signed; the sample lossless engine returns its input.
\<close>

theorem C8_witness:
  "algoName (SynchPixelBufferDecoder_new ''jpeg-lossless'' 3 :: nat SynchPixelBufferDecoder) =
     ''jpeg-lossless''
   \<and> thrown (SynchPixelBufferDecoder_decode sample_codecs
        (SynchPixelBufferDecoder_new ''jpeg-lossless'' 3 :: nat SynchPixelBufferDecoder)
        [1, 2, 3, 257] (sample_meta 16 True) (sample_info 0)) = None
   \<and> delivered (calls (SynchPixelBufferDecoder_decode sample_codecs
        (SynchPixelBufferDecoder_new ''jpeg-lossless'' 3 :: nat SynchPixelBufferDecoder)
        [1, 2, 3, 257] (sample_meta 16 True) (sample_info 0))) =
       [Some (TypedArray Int16 [1, 2, 3, 1])]"
proof -
  let ?d = "SynchPixelBufferDecoder_new ''jpeg-lossless'' 3 :: nat SynchPixelBufferDecoder"
  have h1: "algoName ?d = ''jpeg-lossless''"
    by (simp add: SynchPixelBufferDecoder_new_def)
  have h2: "thrown (SynchPixelBufferDecoder_decode sample_codecs ?d
              [1, 2, 3, 257] (sample_meta 16 True) (sample_info 0)) = None"
    by (simp add: SynchPixelBufferDecoder_decode_def sample_defs new_TypedArray_def
          Uint8Array_from_def)
  have out: "lossless_output sample_codecs [1, 2, 3, 257] (sample_meta 16 True) =
               Some [1, 2, 3, 1]"
    by (simp add: lossless_output_def sample_codecs_def Uint8Array_from_def)
  have m: "bitsAllocated (sample_meta 16 True) = 16" "isSigned (sample_meta 16 True)"
    by (simp_all add: sample_meta_def)
  from C8_jpeg_lossless_array_type [OF h1 h2] m out h1 h2 show ?thesis
    by simp
qed

subsection \<open>Batches with throwing calls\<close>

lemma fired_count_append:
  "fired_count cb (xs @ ys) = fired_count cb xs + fired_count cb ys"
  by (simp add: fired_count_def)

lemma decode_item_count:
  "fired_count OnDecodedItem (calls (SynchPixelBufferDecoder_decode env this b m i)) =
     (if decodes env (algoName this) (b, m, i) then 1 else 0)"
  by (simp add: SynchPixelBufferDecoder_decode_def fired_count_def Let_def split: sum.splits)

lemma decode_all_item_count:
  "fired_count OnDecodedItem
     (concat (map calls (SynchPixelBufferDecoder_decode_all env this cs))) =
   length (filter (decodes env (algoName this)) cs)"
proof (induction cs arbitrary: this)
  case Nil
  show ?case by (simp add: fired_count_def)
next
  case (Cons c cs)
  obtain b m i where c: "c = (b, m, i)" by (cases c) auto
  have "algoName (this\<lparr>decodeCount := decodeCount this + 1\<rparr>) = algoName this" by simp
  with Cons.IH [of "this\<lparr>decodeCount := decodeCount this + 1\<rparr>"] c show ?case
    by (simp add: Let_def fired_count_append decode_item_count decode_final)
qed

lemma decode_all_last_calls:
  "cs \<noteq> [] \<Longrightarrow> numberOfData this = decodeCount this + int (length cs) \<Longrightarrow>
   decodes env (algoName this) (last cs) \<Longrightarrow>
   calls (last (SynchPixelBufferDecoder_decode_all env this cs)) =
     [item_event_of env this (last cs),
      Fire OnDecoded (ondecoded this) EmptyEvent,
      Fire OnDecodeEnd (ondecodeend this) EmptyEvent]"
proof (induction cs arbitrary: this)
  case Nil
  then show ?case by simp
next
  case (Cons c cs)
  obtain b m i where c: "c = (b, m, i)" by (cases c) auto
  let ?d = "this\<lparr>decodeCount := decodeCount this + 1\<rparr>"
  show ?case
  proof (cases "cs = []")
    case True
    with Cons.prems c have ok: "decodes env (algoName this) (b, m, i)" by simp
    from decode_step [OF ok] True c Cons.prems show ?thesis by simp
  next
    case False
    then have ne: "SynchPixelBufferDecoder_decode_all env ?d cs \<noteq> []"
      by (cases cs) (auto simp: Let_def)
    from Cons.prems have n: "numberOfData ?d = decodeCount ?d + int (length cs)" by simp
    from Cons.prems False have l: "decodes env (algoName ?d) (last cs)" by simp
    from Cons.IH [OF False n l] ne c False show ?thesis
      by (simp add: Let_def decode_final)
  qed
qed

text \<open>
  C9. Every decode call of the synchronous decoder, throwing or not, advances the count by
  one, and a call that throws invokes no handler. So in a batch of as many calls as the
  decoder expects, whose last call succeeds while some earlier call throws, the last call
  still sends its item event, then the all-decoded and the decode-end event, although the
  item events of the whole batch (one per succeeding call) are fewer than expected.
\<close>

theorem C9_count_advances_on_throw:
  "decodeCount (final (SynchPixelBufferDecoder_decode env this pixelBuffer meta info)) =
     decodeCount this + 1
   \<and> (thrown (SynchPixelBufferDecoder_decode env this pixelBuffer meta info) \<noteq> None \<longrightarrow>
        calls (SynchPixelBufferDecoder_decode env this pixelBuffer meta info) = [])
   \<and> (decodeCount this = 0 \<and> numberOfData this = int (length cs) \<and> cs \<noteq> [] \<and>
      decodes env (algoName this) (last cs) \<and> \<not> list_all (decodes env (algoName this)) cs \<longrightarrow>
        calls (last (SynchPixelBufferDecoder_decode_all env this cs)) =
          [item_event_of env this (last cs),
           Fire OnDecoded (ondecoded this) EmptyEvent,
           Fire OnDecodeEnd (ondecodeend this) EmptyEvent]
        \<and> fired_count OnDecodedItem
            (concat (map calls (SynchPixelBufferDecoder_decode_all env this cs))) =
          length (filter (decodes env (algoName this)) cs)
        \<and> fired_count OnDecodedItem
            (concat (map calls (SynchPixelBufferDecoder_decode_all env this cs))) < length cs)"
proof -
  have A: "decodeCount (final (SynchPixelBufferDecoder_decode env this pixelBuffer meta info)) =
             decodeCount this + 1"
    by (simp add: decode_final)
  have B: "thrown (SynchPixelBufferDecoder_decode env this pixelBuffer meta info) \<noteq> None \<longrightarrow>
             calls (SynchPixelBufferDecoder_decode env this pixelBuffer meta info) = []"
    by (simp add: SynchPixelBufferDecoder_decode_def Let_def split: sum.splits)
  have C: "calls (last (SynchPixelBufferDecoder_decode_all env this cs)) =
          [item_event_of env this (last cs),
           Fire OnDecoded (ondecoded this) EmptyEvent,
           Fire OnDecodeEnd (ondecodeend this) EmptyEvent]
        \<and> fired_count OnDecodedItem
            (concat (map calls (SynchPixelBufferDecoder_decode_all env this cs))) =
          length (filter (decodes env (algoName this)) cs)
        \<and> fired_count OnDecodedItem
            (concat (map calls (SynchPixelBufferDecoder_decode_all env this cs))) < length cs"
    if h: "decodeCount this = 0" "numberOfData this = int (length cs)" "cs \<noteq> []"
      "decodes env (algoName this) (last cs)" "\<not> list_all (decodes env (algoName this)) cs"
  proof -
    from h have n: "numberOfData this = decodeCount this + int (length cs)" by simp
    have 1: "calls (last (SynchPixelBufferDecoder_decode_all env this cs)) =
          [item_event_of env this (last cs),
           Fire OnDecoded (ondecoded this) EmptyEvent,
           Fire OnDecodeEnd (ondecodeend this) EmptyEvent]"
      by (rule decode_all_last_calls [OF h(3) n h(4)])
    from h(5) obtain c where "c \<in> set cs" "\<not> decodes env (algoName this) c"
      by (auto simp: list_all_iff)
    then have "length (filter (decodes env (algoName this)) cs) < length cs"
      by (rule length_filter_less)
    with 1 show ?thesis by (simp add: decode_all_item_count)
  qed
  from A B C show ?thesis by blast
qed

text \<open>
  C9 at a decoder that expects two baseline frames: the engine rejects the first input, the
  second call succeeds and closes the batch after a single item event.
\<close>

theorem C9_witness:
  "map thrown (SynchPixelBufferDecoder_decode_all sample_codecs
      (SynchPixelBufferDecoder_new ''jpeg-baseline'' 2 :: nat SynchPixelBufferDecoder)
      faulty_batch) = [Some (Error ''unexpected end of data''), None]
   \<and> map calls (SynchPixelBufferDecoder_decode_all sample_codecs
      (SynchPixelBufferDecoder_new ''jpeg-baseline'' 2 :: nat SynchPixelBufferDecoder)
      faulty_batch) =
       [[],
        [Fire OnDecodedItem Default (ItemEvent [Some (External 3)] 1),
         Fire OnDecoded Default EmptyEvent,
         Fire OnDecodeEnd Default EmptyEvent]]
   \<and> fired_count OnDecodedItem (concat (map calls (SynchPixelBufferDecoder_decode_all
      sample_codecs
      (SynchPixelBufferDecoder_new ''jpeg-baseline'' 2 :: nat SynchPixelBufferDecoder)
      faulty_batch))) < length faulty_batch"
proof -
  let ?d = "SynchPixelBufferDecoder_new ''jpeg-baseline'' 2 :: nat SynchPixelBufferDecoder"
  have h: "decodeCount ?d = 0 \<and> numberOfData ?d = int (length faulty_batch) \<and>
           faulty_batch \<noteq> [] \<and> decodes sample_codecs (algoName ?d) (last faulty_batch) \<and>
           \<not> list_all (decodes sample_codecs (algoName ?d)) faulty_batch"
    by (simp add: faulty_batch_def sample_defs)
  have e: "map thrown (SynchPixelBufferDecoder_decode_all sample_codecs ?d faulty_batch) =
             [Some (Error ''unexpected end of data''), None]"
    "map calls (SynchPixelBufferDecoder_decode_all sample_codecs ?d faulty_batch) =
       [[],
        [Fire OnDecodedItem Default (ItemEvent [Some (External 3)] 1),
         Fire OnDecoded Default EmptyEvent,
         Fire OnDecodeEnd Default EmptyEvent]]"
    by (simp_all add: faulty_batch_def sample_defs SynchPixelBufferDecoder_decode_def)
  from C9_count_advances_on_throw [of sample_codecs ?d "[]" "sample_meta 8 False" "sample_info 0" faulty_batch] h e
  show ?thesis by simp
qed

subsection \<open>The load end counter\<close>

lemma addLoadend_final:
  "final (FilesLoader_addLoadend this) = this\<lparr>nLoadend := nLoadend this + 1\<rparr>"
  by (simp add: FilesLoader_addLoadend_def Let_def split: option.splits)

lemma addLoadend_calls:
  "inputData this = Some data \<Longrightarrow>
   calls (FilesLoader_addLoadend this) =
     (if nLoadend this + 1 = 2 * int (length data)
      then [FireLoadEnd (onloadend this) data] else [])"
  by (simp add: FilesLoader_addLoadend_def Let_def)

lemma addLoadend_thrown:
  "inputData this = Some data \<Longrightarrow> thrown (FilesLoader_addLoadend this) = None"
  by (simp add: FilesLoader_addLoadend_def Let_def)

lemma addLoadend_times_calls:
  "inputData this = Some data \<Longrightarrow>
   map calls (FilesLoader_addLoadend_times n this) =
     map (\<lambda>k. if nLoadend this + int (Suc k) = 2 * int (length data)
              then [FireLoadEnd (onloadend this) data] else []) [0..<n]"
proof (induction n arbitrary: this)
  case 0
  show ?case by simp
next
  case (Suc n)
  let ?s = "this\<lparr>nLoadend := nLoadend this + 1\<rparr>"
  from Suc.prems have "inputData ?s = Some data" by simp
  from Suc.IH [OF this] have
    "map calls (FilesLoader_addLoadend_times n ?s) =
       map (\<lambda>k. if nLoadend this + int (Suc (Suc k)) = 2 * int (length data)
                then [FireLoadEnd (onloadend this) data] else []) [0..<n]"
    by (simp add: add.assoc)
  then have
    "map calls (FilesLoader_addLoadend_times n ?s) =
       map ((\<lambda>k. if nLoadend this + int (Suc k) = 2 * int (length data)
                then [FireLoadEnd (onloadend this) data] else []) \<circ> Suc) [0..<n]"
    by (simp add: comp_def)
  with Suc.prems show ?case
    by (simp add: Let_def addLoadend_final addLoadend_calls upt_conv_Cons
          map_Suc_upt [symmetric] del: upt_Suc)
qed

lemma addLoadend_times_thrown:
  "inputData this = Some data \<Longrightarrow>
   map thrown (FilesLoader_addLoadend_times n this) = replicate n None"
proof (induction n arbitrary: this)
  case 0
  show ?case by simp
next
  case (Suc n)
  from Suc.prems have "inputData (this\<lparr>nLoadend := nLoadend this + 1\<rparr>) = Some data" by simp
  from Suc.IH [OF this] Suc.prems show ?case
    by (simp add: Let_def addLoadend_final addLoadend_thrown)
qed

lemma count_single_hit:
  "length (concat (map (\<lambda>k. if Suc k = m then [x] else []) [0..<n])) =
     (if 0 < m \<and> m \<le> n then 1 else 0)"
  by (induction n) auto

text \<open>
  C7. After a load has stored an input of \<open>M\<close> files, the \<open>k\<close>-th load end event received
  invokes the \<^verbatim>\<open>onloadend\<close> handler (with the input as source) exactly when \<open>k = 2 M\<close>, and
  no other does. So among the first \<open>n\<close> load end events of the batch the terminal event fires
  once if \<open>n\<close> has reached \<open>2 M\<close> (and \<open>M \<ge> 1\<close>, which \<^verbatim>\<open>load\<close> guarantees), and not at all
  before. No call throws.
\<close>

theorem C7_loadend_fires_at_twice_input:
  "map calls (FilesLoader_addLoadend_times n (FilesLoader_storeInputData this data)) =
     map (\<lambda>k. if Suc k = 2 * length data then [FireLoadEnd (onloadend this) data] else [])
       [0..<n]
   \<and> length (concat (map calls
        (FilesLoader_addLoadend_times n (FilesLoader_storeInputData this data)))) =
       (if data \<noteq> [] \<and> 2 * length data \<le> n then 1 else 0)
   \<and> map thrown (FilesLoader_addLoadend_times n (FilesLoader_storeInputData this data)) =
       replicate n None"
proof -
  let ?s = "FilesLoader_storeInputData this data"
  have i: "inputData ?s = Some data" and z: "nLoadend ?s = 0"
    and h: "onloadend ?s = onloadend this"
    by (simp_all add: FilesLoader_storeInputData_def)
  have e: "(int (Suc k) = 2 * int (length data)) = (Suc k = 2 * length data)" for k
    by linarith
  have A: "map calls (FilesLoader_addLoadend_times n ?s) =
     map (\<lambda>k. if Suc k = 2 * length data then [FireLoadEnd (onloadend this) data] else [])
       [0..<n]"
    unfolding addLoadend_times_calls [OF i] z h by (simp only: e add_0)
  have B: "length (concat (map calls (FilesLoader_addLoadend_times n ?s))) =
       (if data \<noteq> [] \<and> 2 * length data \<le> n then 1 else 0)"
    unfolding A count_single_hit by simp
  from A B addLoadend_times_thrown [OF i] show ?thesis by blast
qed

text \<open>
  C7 at an input of two files on a loader that was used before: of five load end events
  the fourth fires the terminal event.
\<close>

theorem C7_witness:
  "map calls (FilesLoader_addLoadend_times 5
      (FilesLoader_storeInputData used_loader [''a.dcm'', ''b.dcm''])) =
     [[], [], [], [FireLoadEnd (Assigned 7) [''a.dcm'', ''b.dcm'']], []]"
proof -
  have u: "[0..<5] = [0, 1, 2, 3, 4]"
    by (simp add: upt_rec)
  from C7_loadend_fires_at_twice_input [of 5 used_loader "[''a.dcm'', ''b.dcm'']"]
  show ?thesis
    unfolding u by (simp add: used_loader_def)
qed

subsection \<open>The facade, operation by operation\<close>

lemma all_callback:
  "(\<forall>cb. P cb) \<longleftrightarrow>
     P OnDecodeStart \<and> P OnDecodedItem \<and> P OnDecoded \<and> P OnDecodeEnd \<and> P OnError \<and> P OnAbort"
  by (metis callback.exhaust)

lemma set_handler_facade [simp]:
  "pixelDecoder (set_handler cb h this) = pixelDecoder this"
  "pbd_areCallbacksSet (set_handler cb h this) = pbd_areCallbacksSet this"
  by (cases cb; simp)+

lemma apply_op_async:
  assumes "pixelDecoder (decoder w) = Asynch d"
  shows "\<exists>d'. pixelDecoder (decoder (final (apply_op env w x))) = Asynch d' \<and>
           script d' = script d \<and>
           calls (apply_op env w x) = worker_calls (script d) x"
  using assms
  by (cases x)
     (auto simp: PixelBufferDecoder_decode_def PixelBufferDecoder_abort_def
        AsynchPixelBufferDecoder_decode_def AsynchPixelBufferDecoder_abort_def
        set_callbacks_def Let_def)

lemma observe_async:
  "pixelDecoder (decoder w) = Asynch d \<Longrightarrow>
   observe env w ops = map (worker_calls (script d)) ops"
proof (induction ops arbitrary: w d)
  case Nil
  show ?case by simp
next
  case (Cons x xs)
  from apply_op_async [OF Cons.prems, of env x] obtain d' where
    d': "pixelDecoder (decoder (final (apply_op env w x))) = Asynch d'"
      "script d' = script d" "calls (apply_op env w x) = worker_calls (script d) x"
    by blast
  from Cons.IH [OF d'(1)] d' show ?case by simp
qed

lemma synch_decode_is_fire:
  "list_all is_fire (calls (SynchPixelBufferDecoder_decode env d b m i))"
  by (simp add: SynchPixelBufferDecoder_decode_def Let_def split: sum.splits)

lemma apply_op_synch:
  assumes "pixelDecoder (decoder w) = Synch d"
  shows "\<exists>d'. pixelDecoder (decoder (final (apply_op env w x))) = Synch d' \<and>
           algoName d' = algoName d \<and> numberOfData d' = numberOfData d \<and>
           decodeCount d' = decodeCount d + (if is_decode x then 1 else 0) \<and>
           list_all is_fire (calls (apply_op env w x))"
  using assms
  by (cases x)
     (auto simp: PixelBufferDecoder_decode_def PixelBufferDecoder_abort_def
        SynchPixelBufferDecoder_abort_def synch_decode_is_fire decode_final
        set_callbacks_def Let_def)

lemma exec_synch:
  "pixelDecoder (decoder w) = Synch d \<Longrightarrow>
   \<exists>d'. pixelDecoder (decoder (exec env w ops)) = Synch d' \<and>
     algoName d' = algoName d \<and> numberOfData d' = numberOfData d \<and>
     decodeCount d' = decodeCount d + int (length (filter is_decode ops)) \<and>
     list_all (list_all is_fire) (observe env w ops)"
proof (induction ops arbitrary: w d)
  case Nil
  then show ?case by simp
next
  case (Cons x xs)
  from apply_op_synch [OF Cons.prems, of env x] obtain d' where
    d': "pixelDecoder (decoder (final (apply_op env w x))) = Synch d'"
      "algoName d' = algoName d" "numberOfData d' = numberOfData d"
      "decodeCount d' = decodeCount d + (if is_decode x then 1 else 0)"
      "list_all is_fire (calls (apply_op env w x))"
    by blast
  from Cons.IH [OF d'(1)] obtain d'' where
    d'': "pixelDecoder (decoder (exec env (final (apply_op env w x)) xs)) = Synch d''"
      "algoName d'' = algoName d'" "numberOfData d'' = numberOfData d'"
      "decodeCount d'' = decodeCount d' + int (length (filter is_decode xs))"
      "list_all (list_all is_fire) (observe env (final (apply_op env w x)) xs)"
    by blast
  from d' d'' show ?case by simp
qed

lemma facade_decode_synch:
  assumes "pixelDecoder this = Synch d"
  shows "calls (PixelBufferDecoder_decode env this b m i) =
           calls (SynchPixelBufferDecoder_decode env
                    (if pbd_areCallbacksSet this then d else set_callbacks this d) b m i)"
    and "thrown (PixelBufferDecoder_decode env this b m i) =
           thrown (SynchPixelBufferDecoder_decode env
                    (if pbd_areCallbacksSet this then d else set_callbacks this d) b m i)"
    and "pixelDecoder (final (PixelBufferDecoder_decode env this b m i)) =
           Synch (final (SynchPixelBufferDecoder_decode env
                    (if pbd_areCallbacksSet this then d else set_callbacks this d) b m i))"
  using assms by (simp_all add: PixelBufferDecoder_decode_def Let_def)

lemma facade_decode_asynch:
  assumes "pixelDecoder this = Asynch d"
  shows "calls (PixelBufferDecoder_decode env this b m i) =
           calls (AsynchPixelBufferDecoder_decode
                    (if pbd_areCallbacksSet this then d else set_callbacks this d) b m i)"
    and "thrown (PixelBufferDecoder_decode env this b m i) =
           thrown (AsynchPixelBufferDecoder_decode
                    (if pbd_areCallbacksSet this then d else set_callbacks this d) b m i
                  :: ('h AsynchPixelBufferDecoder, ('h, 'p) call) result)"
    and "pixelDecoder (final (PixelBufferDecoder_decode env this b m i)) =
           Asynch (final (AsynchPixelBufferDecoder_decode
                    (if pbd_areCallbacksSet this then d else set_callbacks this d) b m i
                  :: ('h AsynchPixelBufferDecoder, ('h, 'p) call) result))"
  using assms
  by (simp_all add: PixelBufferDecoder_decode_def AsynchPixelBufferDecoder_decode_def Let_def)

text \<open>
  C4. A facade constructed for algorithm \<open>a\<close> against registry \<open>reg\<close> is in worker pool
  mode if \<open>reg\<close> has an entry for \<open>a\<close> and in synchronous mode otherwise, and stays so
  through every later client operation, changes of the registry included. With an entry
  \<open>s\<close>, every decode call submits one worker task with script \<open>s\<close> to the pool (and
  every abort aborts the pool) and nothing else happens. Without an entry, the delegate is
  the synchronous decoder made for \<open>a\<close> and the expected number; it has counted every
  decode call of the client, no call ever reaches a pool, and a decode call made at any
  point of the session is the decode call of that synchronous decoder: it makes the same
  calls to the handlers and throws the same error.

  Delegation, call by call, for a facade in any state: the calls a decode call of the facade
  makes, the error it throws, and the delegate it leaves are those of the decode call of
  its delegate (the synchronous decoder, or the worker pool decoder), run on the delegate
  as the facade holds it, after the six handlers were copied into it if this is the first
  decode call.
\<close>

theorem C4_routing_fixed_at_construction:
  "mode_of (decoder (exec (env :: 'p codecs) (new_world reg a n) (ops :: 'h op list))) =
     (if reg a = None then Synchronous else WorkerPool)
   \<and> (\<forall>s. reg a = Some s \<longrightarrow>
        observe env (new_world reg a n) ops = map (worker_calls s) ops)
   \<and> (reg a = None \<longrightarrow>
        (\<exists>d. pixelDecoder (decoder (exec env (new_world reg a n) ops)) = Synch d \<and>
           algoName d = a \<and> numberOfData d = n \<and>
           decodeCount d = int (length (filter is_decode ops)) \<and>
           calls (apply_op env (exec env (new_world reg a n) ops) (Decode b m i)) =
             calls (SynchPixelBufferDecoder_decode env
                      (if pbd_areCallbacksSet (decoder (exec env (new_world reg a n) ops))
                       then d
                       else set_callbacks (decoder (exec env (new_world reg a n) ops)) d)
                      b m i) \<and>
           thrown (apply_op env (exec env (new_world reg a n) ops) (Decode b m i)) =
             thrown (SynchPixelBufferDecoder_decode env
                      (if pbd_areCallbacksSet (decoder (exec env (new_world reg a n) ops))
                       then d
                       else set_callbacks (decoder (exec env (new_world reg a n) ops)) d)
                      b m i)) \<and>
        list_all (list_all is_fire) (observe env (new_world reg a n) ops))
   \<and> (\<forall>d. pixelDecoder this = Synch d \<longrightarrow>
        calls (PixelBufferDecoder_decode env this b m i) =
          calls (SynchPixelBufferDecoder_decode env
                   (if pbd_areCallbacksSet this then d else set_callbacks this d) b m i) \<and>
        thrown (PixelBufferDecoder_decode env this b m i) =
          thrown (SynchPixelBufferDecoder_decode env
                   (if pbd_areCallbacksSet this then d else set_callbacks this d) b m i) \<and>
        pixelDecoder (final (PixelBufferDecoder_decode env this b m i)) =
          Synch (final (SynchPixelBufferDecoder_decode env
                   (if pbd_areCallbacksSet this then d else set_callbacks this d) b m i)))
   \<and> (\<forall>d. pixelDecoder this = Asynch d \<longrightarrow>
        calls (PixelBufferDecoder_decode env this b m i) =
          calls (AsynchPixelBufferDecoder_decode
                   (if pbd_areCallbacksSet this then d else set_callbacks this d) b m i) \<and>
        pixelDecoder (final (PixelBufferDecoder_decode env this b m i)) =
          Asynch (final (AsynchPixelBufferDecoder_decode
                   (if pbd_areCallbacksSet this then d else set_callbacks this d) b m i
                 :: ('h AsynchPixelBufferDecoder, ('h, 'p) call) result)))"
proof -
  let ?w = "exec env (new_world reg a n :: 'h world) ops"
  have A: "mode_of (decoder ?w) = (if reg a = None then Synchronous else WorkerPool)
   \<and> (\<forall>s. reg a = Some s \<longrightarrow>
        observe env (new_world reg a n) ops = map (worker_calls s) ops)
   \<and> (reg a = None \<longrightarrow>
        (\<exists>d. pixelDecoder (decoder ?w) = Synch d \<and>
           algoName d = a \<and> numberOfData d = n \<and>
           decodeCount d = int (length (filter is_decode ops))) \<and>
        list_all (list_all is_fire) (observe env (new_world reg a n) ops))"
  proof (cases "reg a")
    case None
    let ?d = "SynchPixelBufferDecoder_new a n :: 'h SynchPixelBufferDecoder"
    from None have "pixelDecoder (decoder (new_world reg a n :: 'h world)) = Synch ?d"
      by (simp add: new_world_def PixelBufferDecoder_new_def)
    from exec_synch [OF this, of env ops] None show ?thesis
      by (auto simp: SynchPixelBufferDecoder_new_def mode_of_def)
  next
    case (Some s)
    let ?d = "AsynchPixelBufferDecoder_new s n :: 'h AsynchPixelBufferDecoder"
    from Some have p: "pixelDecoder (decoder (new_world reg a n :: 'h world)) = Asynch ?d"
      by (simp add: new_world_def PixelBufferDecoder_new_def)
    have s: "script ?d = s"
      by (simp add: AsynchPixelBufferDecoder_new_def)
    have o: "observe env (new_world reg a n :: 'h world) ops = map (worker_calls s) ops" for ops
      using observe_async [OF p, of env ops] s by simp
    have "\<exists>d'. pixelDecoder (decoder (exec env w ops)) = Asynch d'"
      if "pixelDecoder (decoder w) = Asynch d" for w :: "'h world" and d
      using that
    proof (induction ops arbitrary: w d)
      case Nil
      then show ?case by simp
    next
      case (Cons x xs)
      from apply_op_async [OF Cons.prems, of env x] Cons.IH show ?case by auto
    qed
    from this [OF p] Some o show ?thesis by (auto simp: mode_of_def)
  qed
  have B: "\<exists>d. pixelDecoder (decoder ?w) = Synch d \<and>
           algoName d = a \<and> numberOfData d = n \<and>
           decodeCount d = int (length (filter is_decode ops)) \<and>
           calls (apply_op env ?w (Decode b m i)) =
             calls (SynchPixelBufferDecoder_decode env
                      (if pbd_areCallbacksSet (decoder ?w) then d
                       else set_callbacks (decoder ?w) d) b m i) \<and>
           thrown (apply_op env ?w (Decode b m i)) =
             thrown (SynchPixelBufferDecoder_decode env
                      (if pbd_areCallbacksSet (decoder ?w) then d
                       else set_callbacks (decoder ?w) d) b m i)"
    if "reg a = None"
  proof -
    from A that obtain d where d: "pixelDecoder (decoder ?w) = Synch d"
      "algoName d = a" "numberOfData d = n"
      "decodeCount d = int (length (filter is_decode ops))"
      by blast
    note s = facade_decode_synch [OF d(1), where env = env and b = b and m = m and i = i]
    have "calls (apply_op env ?w (Decode b m i)) =
            calls (PixelBufferDecoder_decode env (decoder ?w) b m i)"
      and "thrown (apply_op env ?w (Decode b m i)) =
            thrown (PixelBufferDecoder_decode env (decoder ?w) b m i)"
      by (simp_all add: Let_def)
    with s(1) s(2) d show ?thesis by simp
  qed
  have C: "calls (PixelBufferDecoder_decode env this b m i) =
          calls (SynchPixelBufferDecoder_decode env
                   (if pbd_areCallbacksSet this then d else set_callbacks this d) b m i) \<and>
        thrown (PixelBufferDecoder_decode env this b m i) =
          thrown (SynchPixelBufferDecoder_decode env
                   (if pbd_areCallbacksSet this then d else set_callbacks this d) b m i) \<and>
        pixelDecoder (final (PixelBufferDecoder_decode env this b m i)) =
          Synch (final (SynchPixelBufferDecoder_decode env
                   (if pbd_areCallbacksSet this then d else set_callbacks this d) b m i))"
    if "pixelDecoder this = Synch d" for d
    using facade_decode_synch [OF that, where env = env and b = b and m = m and i = i]
    by blast
  have D: "calls (PixelBufferDecoder_decode env this b m i) =
          calls (AsynchPixelBufferDecoder_decode
                   (if pbd_areCallbacksSet this then d else set_callbacks this d) b m i) \<and>
        pixelDecoder (final (PixelBufferDecoder_decode env this b m i)) =
          Asynch (final (AsynchPixelBufferDecoder_decode
                   (if pbd_areCallbacksSet this then d else set_callbacks this d) b m i
                 :: ('h AsynchPixelBufferDecoder, ('h, 'p) call) result))"
    if "pixelDecoder this = Asynch d" for d
    using facade_decode_asynch(1,3) [OF that, where env = env and b = b and m = m and i = i]
    by blast
  from A B C D show ?thesis by blast
qed

text \<open>
  C4 at two sessions for \<^verbatim>\<open>rle\<close>: with a script registered at construction and removed
  after the first decode call, every decode call still goes to the pool; with no script at
  construction and one registered after the first decode call, the facade stays synchronous
  and its decode calls are those of the synchronous decoder, which closes the batch of two.
\<close>

theorem C4_witness:
  "mode_of (decoder (exec sample_codecs (new_world rle_registry ''rle'' 2 :: nat world)
      [sample_decode 0, Unregister ''rle'', sample_decode 1, Abort])) = WorkerPool
   \<and> observe sample_codecs (new_world rle_registry ''rle'' 2 :: nat world)
      [sample_decode 0, Unregister ''rle'', sample_decode 1, Abort] =
     [[AddWorkerTask (WorkerTask ''rle.js'' [1, 2] (sample_meta 8 False) (sample_info 0))],
      [],
      [AddWorkerTask (WorkerTask ''rle.js'' [1, 2] (sample_meta 8 False) (sample_info 1))],
      [PoolAbort]]
   \<and> mode_of (decoder (exec sample_codecs (new_world Map.empty ''rle'' 2 :: nat world)
      [sample_decode 0, Register ''rle'' ''rle.js'', sample_decode 1])) = Synchronous
   \<and> calls (apply_op sample_codecs
        (exec sample_codecs (new_world Map.empty ''rle'' 2 :: nat world)
           [sample_decode 0, Register ''rle'' ''rle.js''])
        (Decode [3, 4] (sample_meta 8 False) (sample_info 1))) =
       [Fire OnDecodedItem Default (ItemEvent [Some (External 4)] 1),
        Fire OnDecoded Default EmptyEvent,
        Fire OnDecodeEnd Default EmptyEvent]
   \<and> thrown (apply_op no_codecs
        (exec no_codecs (new_world Map.empty ''jpeg2000'' 2 :: nat world) [])
        (Decode [3, 4] (sample_meta 8 False) (sample_info 0))) =
       Some (Error ''No JPEG 2000 decoder provided'')"
proof -
  let ?f = "PixelBufferDecoder_new Map.empty ''rle'' 2 :: nat PixelBufferDecoder"
  note T1 = C4_routing_fixed_at_construction
    [where env = sample_codecs and reg = rle_registry and a = "''rle''" and n = 2
       and ops = "[sample_decode 0, Unregister ''rle'', sample_decode 1, Abort] :: nat op list"
       and b = "[3, 4]" and m = "sample_meta 8 False" and i = "sample_info 1" and this = ?f]
  note T2 = C4_routing_fixed_at_construction
    [where env = sample_codecs and reg = Map.empty and a = "''rle''" and n = 2
       and ops = "[sample_decode 0, Register ''rle'' ''rle.js'', sample_decode 1] :: nat op list"
       and b = "[3, 4]" and m = "sample_meta 8 False" and i = "sample_info 1" and this = ?f]
  note T3 = C4_routing_fixed_at_construction
    [where env = sample_codecs and reg = Map.empty and a = "''rle''" and n = 2
       and ops = "[sample_decode 0, Register ''rle'' ''rle.js''] :: nat op list"
       and b = "[3, 4]" and m = "sample_meta 8 False" and i = "sample_info 1" and this = ?f]
  note T4 = C4_routing_fixed_at_construction
    [where env = no_codecs and reg = Map.empty and a = "''jpeg2000''" and n = 2
       and ops = "[] :: nat op list"
       and b = "[3, 4]" and m = "sample_meta 8 False" and i = "sample_info 0" and this = ?f]
  have r: "rle_registry ''rle'' = Some ''rle.js''"
    by (simp add: rle_registry_def)
  have e: "Map.empty ''rle'' = (None :: string option)"
    "Map.empty ''jpeg2000'' = (None :: string option)"
    by simp_all
  from T1 have
    "mode_of (decoder (exec sample_codecs (new_world rle_registry ''rle'' 2 :: nat world)
      [sample_decode 0, Unregister ''rle'', sample_decode 1, Abort])) =
     (if rle_registry ''rle'' = None then Synchronous else WorkerPool)"
    by blast
  then have 1:
    "mode_of (decoder (exec sample_codecs (new_world rle_registry ''rle'' 2 :: nat world)
      [sample_decode 0, Unregister ''rle'', sample_decode 1, Abort])) = WorkerPool"
    by (simp only: r option.simps if_False)
  from T1 r have
    "observe sample_codecs (new_world rle_registry ''rle'' 2 :: nat world)
      [sample_decode 0, Unregister ''rle'', sample_decode 1, Abort] =
     map (worker_calls ''rle.js'')
       [sample_decode 0, Unregister ''rle'', sample_decode 1, Abort]"
    by blast
  also have "\<dots> =
     [[AddWorkerTask (WorkerTask ''rle.js'' [1, 2] (sample_meta 8 False) (sample_info 0))],
      [],
      [AddWorkerTask (WorkerTask ''rle.js'' [1, 2] (sample_meta 8 False) (sample_info 1))],
      [PoolAbort]]"
    by (simp add: sample_decode_def)
  finally have o1: "observe sample_codecs (new_world rle_registry ''rle'' 2 :: nat world)
      [sample_decode 0, Unregister ''rle'', sample_decode 1, Abort] =
     [[AddWorkerTask (WorkerTask ''rle.js'' [1, 2] (sample_meta 8 False) (sample_info 0))],
      [],
      [AddWorkerTask (WorkerTask ''rle.js'' [1, 2] (sample_meta 8 False) (sample_info 1))],
      [PoolAbort]]" .
  from T2 have
    "mode_of (decoder (exec sample_codecs (new_world Map.empty ''rle'' 2 :: nat world)
      [sample_decode 0, Register ''rle'' ''rle.js'', sample_decode 1])) =
     (if Map.empty ''rle'' = (None :: string option) then Synchronous else WorkerPool)"
    by blast
  then have 2:
    "mode_of (decoder (exec sample_codecs (new_world Map.empty ''rle'' 2 :: nat world)
      [sample_decode 0, Register ''rle'' ''rle.js'', sample_decode 1])) = Synchronous"
    by simp
  let ?w3 = "exec sample_codecs (new_world Map.empty ''rle'' 2 :: nat world)
           [sample_decode 0, Register ''rle'' ''rle.js'']"
  from T3 e(1) obtain d where d: "pixelDecoder (decoder ?w3) = Synch d"
    "algoName d = ''rle''" "numberOfData d = 2"
    "decodeCount d = int (length (filter is_decode
        ([sample_decode 0, Register ''rle'' ''rle.js''] :: nat op list)))"
    "calls (apply_op sample_codecs ?w3 (Decode [3, 4] (sample_meta 8 False) (sample_info 1))) =
       calls (SynchPixelBufferDecoder_decode sample_codecs
                (if pbd_areCallbacksSet (decoder ?w3) then d
                 else set_callbacks (decoder ?w3) d)
                [3, 4] (sample_meta 8 False) (sample_info 1))"
    by blast
  have 3: "calls (apply_op sample_codecs ?w3
             (Decode [3, 4] (sample_meta 8 False) (sample_info 1))) =
       [Fire OnDecodedItem Default (ItemEvent [Some (External 4)] 1),
        Fire OnDecoded Default EmptyEvent,
        Fire OnDecodeEnd Default EmptyEvent]"
    by (simp add: sample_decode_def new_world_def
          PixelBufferDecoder_new_def PixelBufferDecoder_decode_def
          SynchPixelBufferDecoder_decode_def set_callbacks_def Let_def sample_defs)
  let ?w4 = "exec no_codecs (new_world Map.empty ''jpeg2000'' 2 :: nat world) []"
  from T4 e(2) obtain d4 where d4: "pixelDecoder (decoder ?w4) = Synch d4"
    "thrown (apply_op no_codecs ?w4 (Decode [3, 4] (sample_meta 8 False) (sample_info 0))) =
       thrown (SynchPixelBufferDecoder_decode no_codecs
                (if pbd_areCallbacksSet (decoder ?w4) then d4
                 else set_callbacks (decoder ?w4) d4)
                [3, 4] (sample_meta 8 False) (sample_info 0))"
    by blast
  have 4: "thrown (apply_op no_codecs ?w4
             (Decode [3, 4] (sample_meta 8 False) (sample_info 0))) =
       Some (Error ''No JPEG 2000 decoder provided'')"
    by (simp add: new_world_def PixelBufferDecoder_new_def PixelBufferDecoder_decode_def
          SynchPixelBufferDecoder_decode_def set_callbacks_def Let_def sample_defs)
  from 1 o1 2 3 4 show ?thesis
    by blast
qed

subsection \<open>The wiring of the handlers\<close>

lemmas facade_defs = fresh_def wired_def delegate_handler_def pool_handler_def

lemma get_set_handler [simp]:
  "get_handler cb (set_callbacks this d) = get_handler cb this"
  by (cases cb) (simp_all add: set_callbacks_def)

lemma synch_decode_handlers:
  "get_handler cb (final (SynchPixelBufferDecoder_decode env d b m i)) = get_handler cb d"
  by (cases cb) (simp_all add: decode_final)

lemma synch_decode_fires_from:
  "list_all (fires_from (\<lambda>cb. get_handler cb d))
     (calls (SynchPixelBufferDecoder_decode env d b m i))"
  by (simp add: SynchPixelBufferDecoder_decode_def Let_def split: sum.splits)

lemma synch_abort_fires_from:
  "list_all (fires_from (\<lambda>cb. get_handler cb d)) (calls (SynchPixelBufferDecoder_abort d))"
  by (simp add: SynchPixelBufferDecoder_abort_def)

lemma set_callbacks_asynch [simp]:
  "areCallbacksSet (set_callbacks this d) = areCallbacksSet d"
  "pool (set_callbacks this d) = pool d"
  "script (set_callbacks this d) = script d"
  by (simp_all add: set_callbacks_def)

lemma asynch_decode_flag:
  "areCallbacksSet (final (AsynchPixelBufferDecoder_decode d b m i))"
  by (simp add: AsynchPixelBufferDecoder_decode_def Let_def)

lemma asynch_decode_handlers:
  "get_handler cb (final (AsynchPixelBufferDecoder_decode d b m i)) = get_handler cb d"
  by (cases cb) (simp_all add: AsynchPixelBufferDecoder_decode_def Let_def)

lemma asynch_decode_first:
  "\<not> areCallbacksSet d \<Longrightarrow>
   get_pool_handler cb (pool (final (AsynchPixelBufferDecoder_decode d b m i))) = get_handler cb d"
  by (cases cb) (simp_all add: AsynchPixelBufferDecoder_decode_def Let_def)

lemma asynch_decode_later:
  "areCallbacksSet d \<Longrightarrow> final (AsynchPixelBufferDecoder_decode d b m i) = d"
  by (simp add: AsynchPixelBufferDecoder_decode_def Let_def)

lemma asynch_decode_calls:
  "list_all (fires_from H) (calls (AsynchPixelBufferDecoder_decode d b m i))"
  by (simp add: AsynchPixelBufferDecoder_decode_def Let_def)

lemma facade_decode_handlers:
  "get_handler cb (final (PixelBufferDecoder_decode env this b m i)) = get_handler cb this"
  by (cases cb)
     (simp_all add: PixelBufferDecoder_decode_def Let_def split: delegate.splits)

lemma facade_decode_fresh:
  assumes "fresh this"
  shows "wired (final (PixelBufferDecoder_decode env this b m i))"
    and "delegate_handler (final (PixelBufferDecoder_decode env this b m i)) cb =
           get_handler cb this"
    and "pool_handler (final (PixelBufferDecoder_decode env this b m i)) cb =
           (case pixelDecoder this of Asynch d \<Rightarrow> Some (get_handler cb this) | Synch d \<Rightarrow> None)"
    and "list_all (fires_from (\<lambda>cb. get_handler cb this))
           (calls (PixelBufferDecoder_decode env this b m i))"
proof -
  show "wired (final (PixelBufferDecoder_decode env this b m i))"
  proof (cases "pixelDecoder this")
    case (Asynch d)
    with assms show ?thesis
      by (simp add: facade_defs PixelBufferDecoder_decode_def Let_def asynch_decode_flag
            asynch_decode_handlers asynch_decode_first)
  next
    case (Synch d)
    with assms show ?thesis
      by (simp add: facade_defs PixelBufferDecoder_decode_def Let_def)
  qed
  show "delegate_handler (final (PixelBufferDecoder_decode env this b m i)) cb =
           get_handler cb this"
  proof (cases "pixelDecoder this")
    case (Asynch d)
    with assms show ?thesis
      by (simp add: facade_defs PixelBufferDecoder_decode_def Let_def asynch_decode_flag
            asynch_decode_handlers asynch_decode_first)
  next
    case (Synch d)
    with assms show ?thesis
      by (simp add: facade_defs PixelBufferDecoder_decode_def Let_def synch_decode_handlers)
  qed
  show "pool_handler (final (PixelBufferDecoder_decode env this b m i)) cb =
           (case pixelDecoder this of Asynch d \<Rightarrow> Some (get_handler cb this) | Synch d \<Rightarrow> None)"
  proof (cases "pixelDecoder this")
    case (Asynch d)
    with assms show ?thesis
      by (simp add: facade_defs PixelBufferDecoder_decode_def Let_def asynch_decode_flag
            asynch_decode_handlers asynch_decode_first)
  next
    case (Synch d)
    with assms show ?thesis
      by (simp add: facade_defs PixelBufferDecoder_decode_def Let_def)
  qed
  show "list_all (fires_from (\<lambda>cb. get_handler cb this))
           (calls (PixelBufferDecoder_decode env this b m i))"
  proof (cases "pixelDecoder this")
    case (Asynch d)
    with assms show ?thesis
      by (simp add: facade_defs PixelBufferDecoder_decode_def Let_def asynch_decode_calls)
  next
    case (Synch d)
    from synch_decode_fires_from [of "set_callbacks this d" env b m i]
    have "list_all (fires_from (\<lambda>cb. get_handler cb this))
            (calls (SynchPixelBufferDecoder_decode env (set_callbacks this d) b m i))"
      by simp
    with Synch assms show ?thesis
      by (simp add: facade_defs PixelBufferDecoder_decode_def Let_def)
  qed
qed

lemma facade_decode_wired:
  assumes "wired this"
  shows "wired (final (PixelBufferDecoder_decode env this b m i))"
    and "delegate_handler (final (PixelBufferDecoder_decode env this b m i)) cb =
           delegate_handler this cb"
    and "pool_handler (final (PixelBufferDecoder_decode env this b m i)) cb =
           pool_handler this cb"
    and "list_all (fires_from (delegate_handler this))
           (calls (PixelBufferDecoder_decode env this b m i))"
proof -
  show "wired (final (PixelBufferDecoder_decode env this b m i))"
    using assms
    by (cases "pixelDecoder this")
       (simp_all add: facade_defs PixelBufferDecoder_decode_def Let_def asynch_decode_later)
  show "delegate_handler (final (PixelBufferDecoder_decode env this b m i)) cb =
           delegate_handler this cb"
    using assms
    by (cases "pixelDecoder this")
       (simp_all add: facade_defs PixelBufferDecoder_decode_def Let_def asynch_decode_later
          synch_decode_handlers)
  show "pool_handler (final (PixelBufferDecoder_decode env this b m i)) cb =
           pool_handler this cb"
    using assms
    by (cases "pixelDecoder this")
       (simp_all add: facade_defs PixelBufferDecoder_decode_def Let_def asynch_decode_later)
  show "list_all (fires_from (delegate_handler this))
           (calls (PixelBufferDecoder_decode env this b m i))"
  proof (cases "pixelDecoder this")
    case (Asynch d)
    with assms show ?thesis
      by (simp add: facade_defs PixelBufferDecoder_decode_def Let_def asynch_decode_calls)
  next
    case (Synch d)
    then have "delegate_handler this = (\<lambda>cb. get_handler cb d)"
      by (simp add: fun_eq_iff delegate_handler_def)
    with Synch assms synch_decode_fires_from [of d env b m i] show ?thesis
      by (simp add: facade_defs PixelBufferDecoder_decode_def Let_def)
  qed
qed


lemma apply_op_other:
  assumes "\<not> is_decode x"
  shows "fresh (decoder (final (apply_op env w x))) = fresh (decoder w)"
    and "wired (decoder (final (apply_op env w x))) = wired (decoder w)"
    and "delegate_handler (decoder (final (apply_op env w x))) cb = delegate_handler (decoder w) cb"
    and "pool_handler (decoder (final (apply_op env w x))) cb = pool_handler (decoder w) cb"
    and "list_all (fires_from (delegate_handler (decoder w))) (calls (apply_op env w x))"
  using assms
  by (cases x;
      simp add: facade_defs PixelBufferDecoder_abort_def AsynchPixelBufferDecoder_abort_def
        SynchPixelBufferDecoder_abort_def Let_def split: delegate.splits)+

lemma apply_op_wired:
  assumes "wired (decoder w)"
  shows "wired (decoder (final (apply_op env w x)))"
    and "delegate_handler (decoder (final (apply_op env w x))) cb = delegate_handler (decoder w) cb"
    and "pool_handler (decoder (final (apply_op env w x))) cb = pool_handler (decoder w) cb"
    and "list_all (fires_from (delegate_handler (decoder w))) (calls (apply_op env w x))"
proof -
  show "wired (decoder (final (apply_op env w x)))"
  proof (cases x)
    case (Decode b m i)
    with facade_decode_wired(1) [OF assms, where env = env and b = b and m = m and i = i] show ?thesis by (simp add: Let_def)
  qed (use assms apply_op_other(2) [where x = x and env = env and w = w] in simp_all)
  show "delegate_handler (decoder (final (apply_op env w x))) cb = delegate_handler (decoder w) cb"
  proof (cases x)
    case (Decode b m i)
    with facade_decode_wired(2) [OF assms, where env = env and b = b and m = m and i = i and cb = cb] show ?thesis by (simp add: Let_def)
  qed (use apply_op_other(3) [where x = x and env = env and w = w and cb = cb] in simp_all)
  show "pool_handler (decoder (final (apply_op env w x))) cb = pool_handler (decoder w) cb"
  proof (cases x)
    case (Decode b m i)
    with facade_decode_wired(3) [OF assms, where env = env and b = b and m = m and i = i and cb = cb] show ?thesis by (simp add: Let_def)
  qed (use apply_op_other(4) [where x = x and env = env and w = w and cb = cb] in simp_all)
  show "list_all (fires_from (delegate_handler (decoder w))) (calls (apply_op env w x))"
  proof (cases x)
    case (Decode b m i)
    with facade_decode_wired(4) [OF assms, where env = env and b = b and m = m and i = i] show ?thesis by (simp add: Let_def)
  qed (use apply_op_other(5) [where x = x and env = env and w = w] in simp_all)
qed

lemma exec_wired:
  "wired (decoder w) \<Longrightarrow>
   wired (decoder (exec env w ops)) \<and>
   delegate_handler (decoder (exec env w ops)) = delegate_handler (decoder w) \<and>
   pool_handler (decoder (exec env w ops)) = pool_handler (decoder w) \<and>
   list_all (list_all (fires_from (delegate_handler (decoder w)))) (observe env w ops)"
proof (induction ops arbitrary: w)
  case Nil
  then show ?case by simp
next
  case (Cons x xs)
  let ?w = "final (apply_op env w x)"
  note s = apply_op_wired [OF Cons.prems, where env = env and x = x]
  have d: "delegate_handler (decoder ?w) = delegate_handler (decoder w)"
    using s(2) by (simp only: fun_eq_iff) simp
  have p: "pool_handler (decoder ?w) = pool_handler (decoder w)"
    using s(3) by (simp only: fun_eq_iff) simp
  from Cons.IH [OF s(1)] d p s(4) show ?case by simp
qed

lemma exec_pre:
  "list_all (\<lambda>x. \<not> is_decode x) pre \<Longrightarrow>
   fresh (decoder (exec env w pre)) = fresh (decoder w) \<and>
   delegate_handler (decoder (exec env w pre)) = delegate_handler (decoder w) \<and>
   list_all (list_all (fires_from (delegate_handler (decoder w)))) (observe env w pre)"
proof (induction pre arbitrary: w)
  case Nil
  then show ?case by simp
next
  case (Cons x xs)
  let ?w = "final (apply_op env w x)"
  from Cons.prems have x: "\<not> is_decode x" and xs: "list_all (\<lambda>x. \<not> is_decode x) xs"
    by simp_all
  note s = apply_op_other [OF x, where env = env and w = w]
  have d: "delegate_handler (decoder ?w) = delegate_handler (decoder w)"
    using s(3) by (simp only: fun_eq_iff) simp
  from Cons.IH [OF xs, of ?w] d s(1) s(5) show ?case by simp
qed

lemma new_world_fresh:
  "fresh (decoder (new_world reg a n))"
  by (simp add: fresh_def new_world_def PixelBufferDecoder_new_def
        AsynchPixelBufferDecoder_new_def split: option.splits)

lemma new_world_default:
  "delegate_handler (decoder (new_world reg a n)) = (\<lambda>cb. Default)"
proof (rule ext)
  fix cb
  show "delegate_handler (decoder (new_world reg a n)) cb = Default"
    by (cases cb)
       (simp_all add: delegate_handler_def new_world_def PixelBufferDecoder_new_def
          AsynchPixelBufferDecoder_new_def SynchPixelBufferDecoder_new_def split: option.splits)
qed


text \<open>
  C6. A constructed facade is fresh: neither guard flag is set. The decode call on a fresh
  facade copies the six handlers of the facade into the six fields of the delegate (and,
  in worker pool mode, the delegate copies them into the six fields of its pool), and sets
  the flags. A decode call on a facade whose flags are set leaves the six fields of the
  delegate and of the pool as they are, whatever the handlers of the facade are by then.
  So in any sequence of decode calls on a fresh facade the first call binds the handlers
  and the delegate and its pool hold the same handlers after the last call as after the
  first.
\<close>

theorem C6_callbacks_bound_once:
  "fresh (PixelBufferDecoder_new reg a n :: 'h PixelBufferDecoder)
   \<and> (fresh this \<longrightarrow>
        wired (final (PixelBufferDecoder_decode env this b m i)) \<and>
        delegate_handler (final (PixelBufferDecoder_decode env this b m i)) =
          (\<lambda>cb. get_handler cb this) \<and>
        (mode_of this = WorkerPool \<longrightarrow>
           pool_handler (final (PixelBufferDecoder_decode env this b m i)) =
             (\<lambda>cb. Some (get_handler cb this))))
   \<and> (wired this \<longrightarrow>
        wired (final (PixelBufferDecoder_decode env this b m i)) \<and>
        delegate_handler (final (PixelBufferDecoder_decode env this b m i)) =
          delegate_handler this \<and>
        pool_handler (final (PixelBufferDecoder_decode env this b m i)) = pool_handler this)
   \<and> (fresh (decoder w) \<and> list_all is_decode (x # xs) \<longrightarrow>
        delegate_handler (decoder (exec env w (x # xs))) = (\<lambda>cb. get_handler cb (decoder w)) \<and>
        delegate_handler (decoder (exec env w (x # xs))) =
          delegate_handler (decoder (exec env w [x])) \<and>
        pool_handler (decoder (exec env w (x # xs))) = pool_handler (decoder (exec env w [x])))"
proof -
  let ?r = "PixelBufferDecoder_decode env this b m i"
  have A: "fresh (PixelBufferDecoder_new reg a n :: 'h PixelBufferDecoder)"
    using new_world_fresh [of reg a n] by (simp add: new_world_def)
  have B: "wired (final ?r) \<and> delegate_handler (final ?r) = (\<lambda>cb. get_handler cb this) \<and>
        (mode_of this = WorkerPool \<longrightarrow>
           pool_handler (final ?r) = (\<lambda>cb. Some (get_handler cb this)))"
    if f: "fresh this"
  proof -
    note s = facade_decode_fresh [OF f, where env = env and b = b and m = m and i = i]
    have 1: "delegate_handler (final ?r) = (\<lambda>cb. get_handler cb this)"
      by (rule ext) (rule s(2))
    have 2: "pool_handler (final ?r) = (\<lambda>cb. Some (get_handler cb this))"
      if "mode_of this = WorkerPool"
    proof (rule ext)
      fix cb
      from that obtain d where "pixelDecoder this = Asynch d"
        by (cases "pixelDecoder this") (simp_all add: mode_of_def)
      with s(3) [of cb] show "pool_handler (final ?r) cb = Some (get_handler cb this)"
        by simp
    qed
    from s(1) 1 2 show ?thesis by blast
  qed
  have C: "wired (final ?r) \<and> delegate_handler (final ?r) = delegate_handler this \<and>
        pool_handler (final ?r) = pool_handler this"
    if v: "wired this"
  proof -
    note s = facade_decode_wired [OF v, where env = env and b = b and m = m and i = i]
    have "delegate_handler (final ?r) = delegate_handler this"
      by (rule ext) (rule s(2))
    moreover have "pool_handler (final ?r) = pool_handler this"
      by (rule ext) (rule s(3))
    ultimately show ?thesis using s(1) by blast
  qed
  have D: "delegate_handler (decoder (exec env w (x # xs))) = (\<lambda>cb. get_handler cb (decoder w)) \<and>
        delegate_handler (decoder (exec env w (x # xs))) =
          delegate_handler (decoder (exec env w [x])) \<and>
        pool_handler (decoder (exec env w (x # xs))) = pool_handler (decoder (exec env w [x]))"
    if f: "fresh (decoder w)" and l: "list_all is_decode (x # xs)"
  proof -
    from l obtain pb pm pi where x: "x = Decode pb pm pi"
      by (cases x) simp_all
    let ?w = "final (apply_op env w x)"
    note s = facade_decode_fresh [OF f, where env = env and b = pb and m = pm and i = pi]
    have dw: "decoder ?w = final (PixelBufferDecoder_decode env (decoder w) pb pm pi)"
      by (simp add: x Let_def)
    have 1: "delegate_handler (decoder ?w) = (\<lambda>cb. get_handler cb (decoder w))"
      unfolding dw by (rule ext) (rule s(2))
    have v: "wired (decoder ?w)"
      unfolding dw by (rule s(1))
    from exec_wired [OF v, of env xs] 1 show ?thesis by simp
  qed
  from A B C D show ?thesis by blast
qed

text \<open>
  C6 at a facade in worker pool mode whose all-decoded handler was assigned before the
  first decode call and reassigned after it: the delegate and the pool hold the first one
  after the first decode call and after the second.
\<close>

theorem C6_witness:
  "fresh sample_facade
   \<and> delegate_handler (final (PixelBufferDecoder_decode sample_codecs sample_facade
        [1, 2] (sample_meta 8 False) (sample_info 0))) OnDecoded = Assigned 1
   \<and> pool_handler (final (PixelBufferDecoder_decode sample_codecs sample_facade
        [1, 2] (sample_meta 8 False) (sample_info 0))) OnDecoded = Some (Assigned 1)
   \<and> wired sample_facade_later
   \<and> ondecoded sample_facade_later = Assigned 2
   \<and> delegate_handler (final (PixelBufferDecoder_decode sample_codecs sample_facade_later
        [3, 4] (sample_meta 8 False) (sample_info 1))) OnDecoded = Assigned 1
   \<and> pool_handler (final (PixelBufferDecoder_decode sample_codecs sample_facade_later
        [3, 4] (sample_meta 8 False) (sample_info 1))) OnDecoded = Some (Assigned 1)"
proof -
  have f: "fresh sample_facade" and m: "mode_of sample_facade = WorkerPool"
    and h: "get_handler OnDecoded sample_facade = Assigned 1"
    by (simp_all add: sample_facade_def fresh_def mode_of_def PixelBufferDecoder_new_def
          AsynchPixelBufferDecoder_new_def rle_registry_def)
  have v: "wired sample_facade_later" and o: "ondecoded sample_facade_later = Assigned 2"
    by (simp_all add: sample_facade_later_def sample_facade_def wired_def
          PixelBufferDecoder_decode_def AsynchPixelBufferDecoder_decode_def
          PixelBufferDecoder_new_def AsynchPixelBufferDecoder_new_def rle_registry_def
          set_callbacks_def Let_def)
  have d: "delegate_handler sample_facade_later OnDecoded = Assigned 1"
    and p: "pool_handler sample_facade_later OnDecoded = Some (Assigned 1)"
    by (simp_all add: sample_facade_later_def sample_facade_def delegate_handler_def
          pool_handler_def PixelBufferDecoder_decode_def AsynchPixelBufferDecoder_decode_def
          PixelBufferDecoder_new_def AsynchPixelBufferDecoder_new_def rle_registry_def
          set_callbacks_def ThreadPool_new_def Let_def)
  let ?r1 = "PixelBufferDecoder_decode sample_codecs sample_facade
        [1, 2] (sample_meta 8 False) (sample_info 0)"
  let ?r2 = "PixelBufferDecoder_decode sample_codecs sample_facade_later
        [3, 4] (sample_meta 8 False) (sample_info 1)"
  let ?w = "\<lparr> decoderScripts = rle_registry, decoder = sample_facade \<rparr>"
  note T1 = C6_callbacks_bound_once
         [where this = sample_facade and env = sample_codecs and b = "[1, 2]"
            and m = "sample_meta 8 False" and i = "sample_info 0"
            and reg = rle_registry and a = "''rle''" and n = 2
            and w = ?w and x = "sample_decode 0" and xs = "[sample_decode 1]"]
  note T2 = C6_callbacks_bound_once
         [where this = sample_facade_later and env = sample_codecs and b = "[3, 4]"
            and m = "sample_meta 8 False" and i = "sample_info 1"
            and reg = rle_registry and a = "''rle''" and n = 2
            and w = ?w and x = "sample_decode 0" and xs = "[sample_decode 1]"]
  from T1 f m have
    "delegate_handler (final ?r1) = (\<lambda>cb. get_handler cb sample_facade)"
    "pool_handler (final ?r1) = (\<lambda>cb. Some (get_handler cb sample_facade))"
    by blast+
  with h have 1: "delegate_handler (final ?r1) OnDecoded = Assigned 1"
    "pool_handler (final ?r1) OnDecoded = Some (Assigned 1)"
    by simp_all
  from T2 v have
    "delegate_handler (final ?r2) = delegate_handler sample_facade_later"
    "pool_handler (final ?r2) = pool_handler sample_facade_later"
    by blast+
  with d p have 2: "delegate_handler (final ?r2) OnDecoded = Assigned 1"
    "pool_handler (final ?r2) OnDecoded = Some (Assigned 1)"
    by simp_all
  from f v o 1 2 show ?thesis by simp
qed


text \<open>
  C10. Take a facade from its construction through client operations \<open>pre\<close> that hold no
  decode call, then a first decode call, then any client operations \<open>post\<close>, and let \<open>H\<close>
  be the six handlers the facade holds when the first decode call is made. Before that
  call the delegate invokes only its own default handlers. From that call on, every handler
  the delegate invokes is the one \<open>H\<close> gives for the callback, the delegate holds \<open>H\<close> at the
  end, and in worker pool mode so does its pool: a handler assigned to the facade after the
  first decode call reaches neither the delegate nor the pool and is never invoked.
\<close>

theorem C10_handlers_fixed_at_first_decode:
  assumes "list_all (\<lambda>x. \<not> is_decode x) pre"
    and "w1 = exec env (new_world reg a n) pre"
    and "H = (\<lambda>cb. get_handler cb (decoder w1))"
  shows "list_all (list_all (fires_from (\<lambda>cb. Default))) (observe env (new_world reg a n) pre)
       \<and> list_all (list_all (fires_from H)) (observe env w1 (Decode b m i # post))
       \<and> delegate_handler (decoder (exec env w1 (Decode b m i # post))) = H
       \<and> (mode_of (decoder w1) = WorkerPool \<longrightarrow>
            pool_handler (decoder (exec env w1 (Decode b m i # post))) = (\<lambda>cb. Some (H cb)))"
proof -
  let ?w0 = "new_world reg a n :: 'a world"
  let ?r = "PixelBufferDecoder_decode env (decoder w1) b m i"
  let ?w2 = "final (apply_op env w1 (Decode b m i))"
  note p = exec_pre [OF assms(1), of env ?w0]
  from p have A: "list_all (list_all (fires_from (\<lambda>cb. Default))) (observe env ?w0 pre)"
    by (simp add: new_world_default)
  from p have f: "fresh (decoder w1)"
    by (simp add: assms(2) new_world_fresh)
  note s = facade_decode_fresh [OF f, where env = env and b = b and m = m and i = i]
  have dw: "decoder ?w2 = final ?r" and cw: "calls (apply_op env w1 (Decode b m i)) = calls ?r"
    by (simp_all add: Let_def)
  have d2: "delegate_handler (decoder ?w2) = H"
    unfolding dw assms(3) by (rule ext) (rule s(2))
  have v: "wired (decoder ?w2)"
    unfolding dw by (rule s(1))
  have c: "list_all (fires_from H) (calls (apply_op env w1 (Decode b m i)))"
    unfolding cw assms(3) by (rule s(4))
  note e = exec_wired [OF v, of env post]
  from e c d2 have B: "list_all (list_all (fires_from H)) (observe env w1 (Decode b m i # post))"
    by simp
  from e d2 have C: "delegate_handler (decoder (exec env w1 (Decode b m i # post))) = H"
    by simp
  have D: "pool_handler (decoder (exec env w1 (Decode b m i # post))) = (\<lambda>cb. Some (H cb))"
    if "mode_of (decoder w1) = WorkerPool"
  proof -
    from that obtain d where d: "pixelDecoder (decoder w1) = Asynch d"
      by (cases "pixelDecoder (decoder w1)") (simp_all add: mode_of_def)
    have "pool_handler (decoder ?w2) = (\<lambda>cb. Some (H cb))"
    proof (rule ext)
      fix cb
      from s(3) [of cb] d show "pool_handler (decoder ?w2) cb = Some (H cb)"
        unfolding dw assms(3) by simp
    qed
    with e show ?thesis by simp
  qed
  from A B C D show ?thesis by blast
qed

text \<open>
  C10 at a synchronous session for two RLE frames: the all-decoded handler assigned before
  the first decode call is the one invoked when the batch closes; the handlers assigned
  after it are not, the delegate keeps invoking its defaults for them.
\<close>

theorem C10_witness:
  "list_all (\<lambda>x. \<not> is_decode x) sample_pre
   \<and> list_all (list_all (fires_from
        (\<lambda>cb. get_handler cb
           (decoder (exec sample_codecs (new_world Map.empty ''rle'' 2) sample_pre)))))
        (observe sample_codecs (exec sample_codecs (new_world Map.empty ''rle'' 2) sample_pre)
           (Decode [1, 2] (sample_meta 8 False) (sample_info 0) # sample_post))
   \<and> observe sample_codecs (exec sample_codecs (new_world Map.empty ''rle'' 2) sample_pre)
        (Decode [1, 2] (sample_meta 8 False) (sample_info 0) # sample_post) =
       [[Fire OnDecodedItem Default (ItemEvent [Some (External 4)] 0)],
        [], [],
        [Fire OnDecodedItem Default (ItemEvent [Some (External 4)] 1),
         Fire OnDecoded (Assigned 1) EmptyEvent,
         Fire OnDecodeEnd Default EmptyEvent],
        [Fire OnAbort Default EmptyEvent, Fire OnDecodeEnd Default EmptyEvent]]"
proof -
  have h: "list_all (\<lambda>x. \<not> is_decode x) sample_pre"
    by (simp add: sample_pre_def)
  have o: "observe sample_codecs (exec sample_codecs (new_world Map.empty ''rle'' 2) sample_pre)
        (Decode [1, 2] (sample_meta 8 False) (sample_info 0) # sample_post) =
       [[Fire OnDecodedItem Default (ItemEvent [Some (External 4)] 0)],
        [], [],
        [Fire OnDecodedItem Default (ItemEvent [Some (External 4)] 1),
         Fire OnDecoded (Assigned 1) EmptyEvent,
         Fire OnDecodeEnd Default EmptyEvent],
        [Fire OnAbort Default EmptyEvent, Fire OnDecodeEnd Default EmptyEvent]]"
    by (simp add: sample_pre_def sample_post_def sample_decode_def new_world_def
          PixelBufferDecoder_new_def PixelBufferDecoder_decode_def PixelBufferDecoder_abort_def
          SynchPixelBufferDecoder_decode_def SynchPixelBufferDecoder_abort_def
          set_callbacks_def Let_def sample_defs)
  from C10_handlers_fixed_at_first_decode [OF h refl refl,
         where env = sample_codecs and reg = Map.empty and a = "''rle''" and n = 2
           and b = "[1, 2]" and m = "sample_meta 8 False" and i = "sample_info 0"
           and post = sample_post]
  have "list_all (list_all (fires_from
        (\<lambda>cb. get_handler cb
           (decoder (exec sample_codecs (new_world Map.empty ''rle'' 2) sample_pre)))))
        (observe sample_codecs (exec sample_codecs (new_world Map.empty ''rle'' 2) sample_pre)
           (Decode [1, 2] (sample_meta 8 False) (sample_info 0) # sample_post))"
    by blast
  with h o show ?thesis by blast
qed

end
